theory Spec2Isabelle
  imports Complex_Main
begin

section \<open>JSON-like values and strings\<close>

text \<open>
  Tool arguments arrive as parsed JSON. A value is null, a boolean, a number, a string,
  an array, or an object. An object is kept as the list of its own enumerable properties
  in the order \<^verbatim>\<open>Object.values\<close> enumerates them. Numbers are never inspected by the
  proxy, so a rational stands for the numeric literal.

  A string is the list of the bytes of its UTF-8 form, so an ASCII string is the list of its
  characters.
\<close>

datatype json =
    JNull
  | JBool bool
  | JNum rat
  | JStr string
  | JArr "json list"
  | JObj "(string \<times> json) list"

text \<open>
  \<^verbatim>\<open>s.includes(p)\<close>: does \<open>p\<close> occur in \<open>s\<close> at some position. \<open>startsWith\<close> is the
  comparison at one position, \<open>str_includes\<close> tries every position from the left.
\<close>

fun startsWith :: "string \<Rightarrow> string \<Rightarrow> bool" where
  "startsWith s [] = True"
| "startsWith [] (c # cs) = False"
| "startsWith (x # xs) (c # cs) = (x = c \<and> startsWith xs cs)"

fun str_includes :: "string \<Rightarrow> string \<Rightarrow> bool" where
  "str_includes [] p = (p = [])"
| "str_includes (x # xs) p = (startsWith (x # xs) p \<or> str_includes xs p)"

section \<open>The block rule engine (rules.ts)\<close>

text \<open>
  \<^verbatim>\<open>extractStrings\<close> fills the array \<^verbatim>\<open>values\<close> through the local function \<^verbatim>\<open>walk\<close>;
  the array is threaded through \<open>walk\<close> as an accumulator, \<^verbatim>\<open>push\<close> appends at the end
  and \<^verbatim>\<open>forEach\<close> is a left fold. The three tests of \<^verbatim>\<open>walk\<close> are tried in the source's
  order: string, array, non-null object; anything else is skipped.
\<close>

fun walk :: "json \<Rightarrow> string list \<Rightarrow> string list" where
  "walk (JStr s) values = values @ [s]"
| "walk (JArr xs) values = fold walk xs values"
| "walk (JObj kvs) values = fold walk (map snd kvs) values"
| "walk JNull values = values"
| "walk (JBool b) values = values"
| "walk (JNum n) values = values"

definition extractStrings :: "json \<Rightarrow> string list" where
  "extractStrings obj = walk obj []"

record BlockResult =
  blocked :: bool
  pattern :: "string option"

text \<open>
  \<^verbatim>\<open>shouldBlock\<close> calls \<^verbatim>\<open>String.prototype.toLowerCase\<close> on every value and every pattern.
  That function belongs to the JavaScript runtime, not to the repository: it applies the
  Unicode lower-case mappings, which can change the length of a string and depend on the
  neighbours of a character. It is the parameter \<open>lower\<close> of the engine, and nothing is
  assumed of it unless a statement says so.

  The two nested loops: \<open>anyValueIncludes\<close> is the inner loop over the collected values for
  one pattern, \<open>scanPatterns\<close> the outer loop over the patterns. The \<^verbatim>\<open>return\<close> inside the
  loops ends both.
\<close>

fun anyValueIncludes :: "(string \<Rightarrow> string) \<Rightarrow> string \<Rightarrow> string list \<Rightarrow> bool" where
  "anyValueIncludes lower p [] = False"
| "anyValueIncludes lower p (v # vs) =
     (if str_includes (lower v) (lower p) then True else anyValueIncludes lower p vs)"

fun scanPatterns :: "(string \<Rightarrow> string) \<Rightarrow> string list \<Rightarrow> string list \<Rightarrow> BlockResult" where
  "scanPatterns lower values [] = \<lparr>blocked = False, pattern = None\<rparr>"
| "scanPatterns lower values (p # ps) =
     (if anyValueIncludes lower p values then \<lparr>blocked = True, pattern = Some p\<rparr>
      else scanPatterns lower values ps)"

definition shouldBlock :: "(string \<Rightarrow> string) \<Rightarrow> json \<Rightarrow> string list \<Rightarrow> BlockResult" where
  "shouldBlock lower args patterns = scanPatterns lower (extractStrings args) patterns"

subsection \<open>Reference notions\<close>

text \<open>
  Written independently of the loops: a string leaf reachable by descending through arrays
  and objects; a string occurring in another; the lower-case form of a pattern occurring
  in the lower-case form of a value; a pattern hitting an argument structure in that way.
  \<open>blankScalars\<close> replaces every numeric and boolean leaf by null.
\<close>

inductive reachableLeaf :: "json \<Rightarrow> string \<Rightarrow> bool" where
  leaf_here: "reachableLeaf (JStr s) s"
| leaf_in_sequence: "x \<in> set xs \<Longrightarrow> reachableLeaf x s \<Longrightarrow> reachableLeaf (JArr xs) s"
| leaf_in_mapping: "(k, v) \<in> set kvs \<Longrightarrow> reachableLeaf v s \<Longrightarrow> reachableLeaf (JObj kvs) s"

definition occursIn :: "string \<Rightarrow> string \<Rightarrow> bool" where
  "occursIn p v = (\<exists>pre suf. v = pre @ p @ suf)"

definition loweredContains :: "(string \<Rightarrow> string) \<Rightarrow> string \<Rightarrow> string \<Rightarrow> bool" where
  "loweredContains lower v p = occursIn (lower p) (lower v)"

definition patternHits :: "(string \<Rightarrow> string) \<Rightarrow> json \<Rightarrow> string \<Rightarrow> bool" where
  "patternHits lower args p = (\<exists>v. reachableLeaf args v \<and> loweredContains lower v p)"

fun blankScalars :: "json \<Rightarrow> json" where
  "blankScalars (JArr xs) = JArr (map blankScalars xs)"
| "blankScalars (JObj kvs) = JObj (map (\<lambda>kv. (fst kv, blankScalars (snd kv))) kvs)"
| "blankScalars (JStr s) = JStr s"
| "blankScalars JNull = JNull"
| "blankScalars (JBool b) = JNull"
| "blankScalars (JNum n) = JNull"

subsection \<open>Example data\<close>

text \<open>
  Two lower-case functions for evaluating examples. \<open>lowerAscii\<close> maps the letters
  \<^verbatim>\<open>A\<close> to \<^verbatim>\<open>Z\<close> (codes 65 to 90) to \<^verbatim>\<open>a\<close> to \<^verbatim>\<open>z\<close> by setting the bit of weight 32 and
  leaves every other byte; on a string of ASCII characters that is what \<^verbatim>\<open>toLowerCase\<close>
  returns. \<open>lowerGreekSample\<close> acts in addition on the two Greek strings of the
  final-sigma example as \<^verbatim>\<open>toLowerCase\<close> does: capital alpha, capital sigma (U+0391 U+03A3)
  becomes small alpha, small final sigma (U+03B1 U+03C2), and capital sigma alone becomes
  small sigma (U+03C3).
\<close>

definition lowerAsciiChar :: "char \<Rightarrow> char" where
  "lowerAsciiChar c =
     (let n = (of_char c :: nat) in
      if 65 \<le> n \<and> n \<le> 90
      then (case c of Char b0 b1 b2 b3 b4 b5 b6 b7 \<Rightarrow> Char b0 b1 b2 b3 b4 True b6 b7)
      else c)"

definition lowerAscii :: "string \<Rightarrow> string" where
  "lowerAscii s = map lowerAsciiChar s"

definition lowerGreekSample :: "string \<Rightarrow> string" where
  "lowerGreekSample s =
     (if s = [CHR 0xCE, CHR 0x91, CHR 0xCE, CHR 0xA3] then [CHR 0xCE, CHR 0xB1, CHR 0xCF, CHR 0x82]
      else if s = [CHR 0xCE, CHR 0xA3] then [CHR 0xCF, CHR 0x83]
      else lowerAscii s)"

definition exampleArgs :: json where
  "exampleArgs =
     JObj [(''query'', JStr ''DROP TABLE x''),
           (''opts'', JArr [JNum 1, JObj [(''note'', JStr ''Select all'')], JNull])]"

section \<open>Promises, thrown values and configuration (server.ts, types.ts)\<close>

text \<open>
  What an awaited call can do: fulfil with a value, reject with a thrown value, or never
  settle. Of a thrown value the proxy reads only the text
  \<^verbatim>\<open>err instanceof Error ? err.message : String(err)\<close>.
\<close>

datatype thrown = ErrorInstance string | OtherValue string

definition errorMessage :: "thrown \<Rightarrow> string" where
  "errorMessage err = (case err of ErrorInstance m \<Rightarrow> m | OtherValue s \<Rightarrow> s)"

datatype 'a promise = Fulfilled 'a | Rejected thrown | Pending

text \<open>
  \<^verbatim>\<open>ServerConfig\<close> and \<^verbatim>\<open>GuardConfig\<close>. An optional field is an option. The \<^verbatim>\<open>url\<close> is an
  option as well: the type requires it, but the value that \<^verbatim>\<open>config.servers[gateName]\<close>
  reads may be a member inherited from \<^verbatim>\<open>Object.prototype\<close>, of which every field the proxy
  reads is \<^verbatim>\<open>undefined\<close>. \<open>servers\<close> lists the own properties of the parsed object in key
  enumeration order.
\<close>

record ServerConfig =
  url :: "string option"
  enabled :: "bool option"
  block :: "string list option"
  blockMessage :: "string option"

record GuardConfig =
  port :: nat
  servers :: "(string \<times> ServerConfig) list"

section \<open>The gated operation mirror (createGatedServer)\<close>

text \<open>
  The upstream's answer to \<^verbatim>\<open>callTool\<close> has optional \<^verbatim>\<open>content\<close> and \<^verbatim>\<open>isError\<close>; the
  handler's own result has both. The handler's trace lists, in order, the calls it makes to
  the block rule engine and to the upstream. Writing the log line to stderr is left out: no
  result depends on it.
\<close>

record CallToolResult =
  result_content :: "json list option"
  result_isError :: "bool option"

record ToolResponse =
  content :: "json list"
  isError :: bool

datatype call = ShouldBlockCall json "string list" | CallToolCall string json

type_synonym Client = "string \<Rightarrow> json \<Rightarrow> CallToolResult promise"

definition textContent :: "string \<Rightarrow> json" where
  "textContent t = JObj [(''type'', JStr ''text''), (''text'', JStr t)]"

text \<open>The no-entry sign U+26D4, as its three UTF-8 bytes, followed by a space.\<close>

definition noEntryPrefix :: string where
  "noEntryPrefix = [CHR 0xE2, CHR 0x9B, CHR 0x94, CHR '' '']"

text \<open>
  \<^verbatim>\<open>gateConfig.blockMessage ?? `Blocked: matched pattern "${result.pattern}"`\<close>; a missing
  pattern would be interpolated as \<^verbatim>\<open>undefined\<close>.
\<close>

definition blockedMessage :: "ServerConfig \<Rightarrow> BlockResult \<Rightarrow> string" where
  "blockedMessage gateConfig result =
     (case blockMessage gateConfig of
        Some m \<Rightarrow> m
      | None \<Rightarrow> ''Blocked: matched pattern '' @ [CHR 0x22] @
                 (case pattern result of Some p \<Rightarrow> p | None \<Rightarrow> ''undefined'') @ [CHR 0x22])"

text \<open>
  The guard \<^verbatim>\<open>gateConfig.enabled !== false && gateConfig.block?.length\<close>: the patterns to
  check, if blocking is active.
\<close>

definition activePatterns :: "ServerConfig \<Rightarrow> string list option" where
  "activePatterns gateConfig =
     (if enabled gateConfig \<noteq> Some False
      then (case block gateConfig of
              None \<Rightarrow> None
            | Some patterns \<Rightarrow> if length patterns \<noteq> 0 then Some patterns else None)
      else None)"

text \<open>The \<^verbatim>\<open>try\<close>/\<^verbatim>\<open>catch\<close> around the upstream call.\<close>

definition forwardCall :: "Client \<Rightarrow> string \<Rightarrow> json \<Rightarrow> ToolResponse promise \<times> call list" where
  "forwardCall callTool toolName args =
     (case callTool toolName args of
        Fulfilled result \<Rightarrow>
          Fulfilled
            \<lparr>content = (case result_content result of Some c \<Rightarrow> c | None \<Rightarrow> []),
             isError = (case result_isError result of Some e \<Rightarrow> e | None \<Rightarrow> False)\<rparr>
      | Rejected err \<Rightarrow>
          Fulfilled
            \<lparr>content = [textContent (''Upstream error: '' @ errorMessage err)],
             isError = True\<rparr>
      | Pending \<Rightarrow> Pending,
      [CallToolCall toolName args])"

text \<open>The handler registered for one tool.\<close>

definition toolHandler ::
  "(string \<Rightarrow> string) \<Rightarrow> Client \<Rightarrow> ServerConfig \<Rightarrow> string \<Rightarrow> json \<Rightarrow>
     ToolResponse promise \<times> call list" where
  "toolHandler lower callTool gateConfig toolName args =
     (case activePatterns gateConfig of
        Some patterns \<Rightarrow>
          (let result = shouldBlock lower args patterns in
           if blocked result
           then (Fulfilled
                   \<lparr>content = [textContent (noEntryPrefix @ blockedMessage gateConfig result)],
                    isError = True\<rparr>,
                 [ShouldBlockCall args patterns])
           else (fst (forwardCall callTool toolName args),
                 ShouldBlockCall args patterns # snd (forwardCall callTool toolName args)))
      | None \<Rightarrow> forwardCall callTool toolName args)"

text \<open>
  A connected gate: the upstream \<^verbatim>\<open>Client\<close> object, identified by the number of clients
  created before it, and the tools the upstream listed at connect time.
\<close>

record Tool =
  tool_name :: string
  tool_description :: "string option"

record GateState =
  upstream :: nat
  tools :: "Tool list"

text \<open>
  \<^verbatim>\<open>createGatedServer\<close> registers one handler per upstream tool, under the tool's name; the
  server is the list of its registrations. \<open>clientOf\<close> gives the behaviour of a client's
  \<^verbatim>\<open>callTool\<close>, \<open>lower\<close> is the runtime's \<^verbatim>\<open>toLowerCase\<close>.
\<close>

definition createGatedServer ::
  "(string \<Rightarrow> string) \<Rightarrow> (nat \<Rightarrow> Client) \<Rightarrow> GateState \<Rightarrow> ServerConfig \<Rightarrow>
     (string \<times> (json \<Rightarrow> ToolResponse promise \<times> call list)) list" where
  "createGatedServer lower clientOf gate gateConfig =
     map (\<lambda>tool. (tool_name tool,
                   toolHandler lower (clientOf (upstream gate)) gateConfig (tool_name tool)))
       (tools gate)"

text \<open>
  Example data: the configuration of the scenario with patterns \<^verbatim>\<open>DROP\<close> and \<^verbatim>\<open>DELETE\<close>,
  and four upstreams. One answers every call with the tool name and the arguments it
  received, one answers with an error flag and no content, one rejects every call with an
  \<^verbatim>\<open>Error\<close> whose message names the tool, one rejects with a thrown string.
\<close>

definition exampleConfig :: ServerConfig where
  "exampleConfig = \<lparr>url = Some ''http://up/db'', enabled = None,
      block = Some [''DROP'', ''DELETE''], blockMessage = Some ''no''\<rparr>"

definition echoClient :: Client where
  "echoClient toolName args =
     Fulfilled \<lparr>result_content = Some [JObj [(''type'', JStr ''text''), (''text'', JStr toolName)], args],
                result_isError = None\<rparr>"

definition flaggingClient :: Client where
  "flaggingClient toolName args = Fulfilled \<lparr>result_content = None, result_isError = Some True\<rparr>"

definition failingClient :: Client where
  "failingClient toolName args = Rejected (ErrorInstance (''fetch failed: '' @ toolName))"

definition throwingClient :: Client where
  "throwingClient toolName args = Rejected (OtherValue ''timeout'')"

section \<open>The gate registry (connectUpstream, getGate)\<close>

text \<open>
  The module-level maps \<^verbatim>\<open>sessions\<close> and \<^verbatim>\<open>gates\<close> are the state of the proxy; \<open>clients\<close>
  counts the upstream \<^verbatim>\<open>Client\<close> objects created so far, one per connection attempt. A
  session is \<^verbatim>\<open>{gateName, server, transport}\<close>: the server is
  \<^verbatim>\<open>createGatedServer(gate, gateConfig)\<close> and is kept as its two arguments; the transport
  belongs to the protocol library.
\<close>

record Session =
  gateName :: string
  server :: "GateState \<times> ServerConfig"

record ProxyState =
  sessions :: "string \<rightharpoonup> Session"
  gates :: "string \<rightharpoonup> GateState"
  clients :: nat

text \<open>
  What lies outside the proxy, as seen during one request: whether \<^verbatim>\<open>new URL\<close> accepts a
  string, what the upstream at a URL answers to the client created as number \<open>n\<close>
  (\<^verbatim>\<open>connect\<close> followed by \<^verbatim>\<open>listTools\<close>), and how the protocol library and the request body
  behave.
\<close>

record Env =
  urlParses :: "string \<Rightarrow> bool"
  connectResult :: "nat \<Rightarrow> string \<Rightarrow> Tool list promise"
  serverConnect :: "unit promise"
  bodyResult :: "json option promise"
  transportResult :: "unit promise"
  initialized :: "string option"

definition urlOf :: "Env \<Rightarrow> ServerConfig \<Rightarrow> string option" where
  "urlOf env config =
     (case url config of
        None \<Rightarrow> None
      | Some u \<Rightarrow> if urlParses env u then Some u else None)"

text \<open>
  \<^verbatim>\<open>connectUpstream\<close>: \<^verbatim>\<open>new URL(config.url)\<close> throws \<^verbatim>\<open>TypeError: Invalid URL\<close> before any
  client exists; otherwise a client is created and connects.
\<close>

definition connectUpstream ::
  "Env \<Rightarrow> ProxyState \<Rightarrow> string \<Rightarrow> ServerConfig \<Rightarrow> GateState promise \<times> ProxyState" where
  "connectUpstream env st nm config =
     (case urlOf env config of
        None \<Rightarrow> (Rejected (ErrorInstance ''Invalid URL''), st)
      | Some u \<Rightarrow>
          (case connectResult env (clients st) u of
             Fulfilled ts \<Rightarrow> Fulfilled \<lparr>upstream = clients st, tools = ts\<rparr>
           | Rejected e \<Rightarrow> Rejected e
           | Pending \<Rightarrow> Pending,
           st\<lparr>clients := Suc (clients st)\<rparr>))"

text \<open>\<^verbatim>\<open>getGate\<close>, run from its call to its return with nothing else in between.\<close>

definition getGate ::
  "Env \<Rightarrow> ProxyState \<Rightarrow> string \<Rightarrow> ServerConfig \<Rightarrow> GateState promise \<times> ProxyState" where
  "getGate env st nm config =
     (case gates st nm of
        Some gate \<Rightarrow> (Fulfilled gate, st)
      | None \<Rightarrow>
          (case connectUpstream env st nm config of
             (Fulfilled gate, st') \<Rightarrow> (Fulfilled gate, st'\<lparr>gates := (gates st')(nm \<mapsto> gate)\<rparr>)
           | (Rejected e, st') \<Rightarrow> (Rejected e, st')
           | (Pending, st') \<Rightarrow> (Pending, st')))"

subsection \<open>Calls that overlap\<close>

text \<open>
  An \<^verbatim>\<open>async\<close> function runs without interruption up to an \<^verbatim>\<open>await\<close> and is resumed later,
  after other requests may have run. \<open>getGate\<close> has one such point,
  \<^verbatim>\<open>await connectUpstream(name, config)\<close>. A call is therefore either not yet started,
  suspended there (with the number of the client it created and the URL), or returned.
  \<open>getGate_enter\<close> is the part before the suspension (the test \<^verbatim>\<open>gates.has(name)\<close> and the
  start of the connection), \<open>getGate_resume\<close> the part after it (\<^verbatim>\<open>gates.set\<close> and the
  return). A schedule names, step by step, the call that runs next.
\<close>

datatype getGateCall =
    Called string ServerConfig
  | AwaitingConnect string nat string
  | Returned "GateState promise"

definition getGate_enter ::
  "Env \<Rightarrow> ProxyState \<Rightarrow> string \<Rightarrow> ServerConfig \<Rightarrow> getGateCall \<times> ProxyState" where
  "getGate_enter env st nm config =
     (case gates st nm of
        Some gate \<Rightarrow> (Returned (Fulfilled gate), st)
      | None \<Rightarrow>
          (case urlOf env config of
             None \<Rightarrow> (Returned (Rejected (ErrorInstance ''Invalid URL'')), st)
           | Some u \<Rightarrow> (AwaitingConnect nm (clients st) u, st\<lparr>clients := Suc (clients st)\<rparr>)))"

definition getGate_resume ::
  "Env \<Rightarrow> ProxyState \<Rightarrow> string \<Rightarrow> nat \<Rightarrow> string \<Rightarrow> getGateCall \<times> ProxyState" where
  "getGate_resume env st nm n u =
     (case connectResult env n u of
        Fulfilled ts \<Rightarrow>
          (Returned (Fulfilled \<lparr>upstream = n, tools = ts\<rparr>),
           st\<lparr>gates := (gates st)(nm \<mapsto> \<lparr>upstream = n, tools = ts\<rparr>)\<rparr>)
      | Rejected e \<Rightarrow> (Returned (Rejected e), st)
      | Pending \<Rightarrow> (AwaitingConnect nm n u, st))"

fun stepCall :: "Env \<Rightarrow> ProxyState \<Rightarrow> getGateCall \<Rightarrow> getGateCall \<times> ProxyState" where
  "stepCall env st (Called nm config) = getGate_enter env st nm config"
| "stepCall env st (AwaitingConnect nm n u) = getGate_resume env st nm n u"
| "stepCall env st (Returned r) = (Returned r, st)"

fun runSchedule ::
  "Env \<Rightarrow> nat list \<Rightarrow> getGateCall list \<times> ProxyState \<Rightarrow> getGateCall list \<times> ProxyState" where
  "runSchedule env [] (calls, st) = (calls, st)"
| "runSchedule env (i # rest) (calls, st) =
     (if i < length calls
      then runSchedule env rest (calls[i := fst (stepCall env st (calls ! i))],
                                 snd (stepCall env st (calls ! i)))
      else runSchedule env rest (calls, st))"

text \<open>A call has been entered once it is suspended or has returned.\<close>

definition entered :: "getGateCall \<Rightarrow> bool" where
  "entered c = (case c of Called nm config \<Rightarrow> False | _ \<Rightarrow> True)"

definition allReturned :: "getGateCall list \<Rightarrow> bool" where
  "allReturned calls = list_all (\<lambda>c. case c of Returned r \<Rightarrow> True | _ \<Rightarrow> False) calls"

text \<open>
  Single flight, as a property of one environment, gate name and configuration: whatever the
  schedule, once two calls made on the empty registry have both returned, one client has
  been created and both calls have returned the same thing.
\<close>

definition emptyState :: ProxyState where
  "emptyState = \<lparr>sessions = Map.empty, gates = Map.empty, clients = 0\<rparr>"

definition singleFlight :: "Env \<Rightarrow> string \<Rightarrow> ServerConfig \<Rightarrow> bool" where
  "singleFlight env nm config =
     (\<forall>schedule calls st.
        runSchedule env schedule ([Called nm config, Called nm config], emptyState) = (calls, st)
          \<and> allReturned calls
        \<longrightarrow> clients st = 1 \<and> calls ! 0 = calls ! 1)"

text \<open>Example data: an upstream that accepts every connection and lists one tool.\<close>

definition exampleEnv :: Env where
  "exampleEnv =
     \<lparr>urlParses = (\<lambda>u. True),
      connectResult = (\<lambda>n u. Fulfilled [\<lparr>tool_name = ''execute_sql'', tool_description = None\<rparr>]),
      serverConnect = Fulfilled (),
      bodyResult = Fulfilled None,
      transportResult = Fulfilled (),
      initialized = None\<rparr>"

definition refusingEnv :: Env where
  "refusingEnv = exampleEnv\<lparr>connectResult :=
     (\<lambda>n u. if n = 0 then Rejected (ErrorInstance ''fetch failed'')
            else Fulfilled [\<lparr>tool_name = ''execute_sql'', tool_description = None\<rparr>])\<rparr>"

definition gate1 :: GateState where
  "gate1 = \<lparr>upstream = 1, tools = [\<lparr>tool_name = ''execute_sql'', tool_description = None\<rparr>]\<rparr>"

definition gate2 :: GateState where
  "gate2 = \<lparr>upstream = 2, tools = [\<lparr>tool_name = ''execute_sql'', tool_description = None\<rparr>]\<rparr>"

section \<open>The session router (handleRequest)\<close>

text \<open>
  Of a request the router reads the method, the path of the parsed URL and the header
  \<^verbatim>\<open>mcp-session-id\<close>. It answers by itself with a status and a JSON payload, or hands the
  request to a transport of the protocol library, which writes the response.
\<close>

record Request =
  req_method :: string
  pathname :: string
  sessionId :: "string option"

datatype response = Json nat json | ByTransport

text \<open>
  \<^verbatim>\<open>url.pathname.replace(/^\//, "").replace(/\/$/, "")\<close>: one leading and one trailing slash
  are removed.
\<close>

definition stripLeadingSlash :: "string \<Rightarrow> string" where
  "stripLeadingSlash s = (case s of [] \<Rightarrow> [] | c # cs \<Rightarrow> if c = CHR ''/'' then cs else s)"

definition stripTrailingSlash :: "string \<Rightarrow> string" where
  "stripTrailingSlash s = (if s \<noteq> [] \<and> last s = CHR ''/'' then butlast s else s)"

definition gateNameOf :: "string \<Rightarrow> string" where
  "gateNameOf p = stripTrailingSlash (stripLeadingSlash p)"

text \<open>
  \<^verbatim>\<open>config.servers[gateName]\<close> is a property read on an object made by \<^verbatim>\<open>JSON.parse\<close>: an own
  property if there is one, and otherwise the member of \<^verbatim>\<open>Object.prototype\<close> of that name,
  if there is one. Every such member is a function or an object, hence truthy, and each
  field the proxy reads from it (\<^verbatim>\<open>url\<close>, \<^verbatim>\<open>enabled\<close>, \<^verbatim>\<open>block\<close>, \<^verbatim>\<open>blockMessage\<close>) is
  \<^verbatim>\<open>undefined\<close>. A configured entry is an object, hence truthy too. \<open>None\<close> is
  \<^verbatim>\<open>undefined\<close>.
\<close>

definition objectPrototypeKeys :: "string list" where
  "objectPrototypeKeys =
     [''constructor'', ''__defineGetter__'', ''__defineSetter__'', ''hasOwnProperty'',
      ''__lookupGetter__'', ''__lookupSetter__'', ''isPrototypeOf'', ''propertyIsEnumerable'',
      ''toString'', ''valueOf'', ''__proto__'', ''toLocaleString'']"

definition inheritedMember :: ServerConfig where
  "inheritedMember = \<lparr>url = None, enabled = None, block = None, blockMessage = None\<rparr>"

definition serversGet :: "(string \<times> ServerConfig) list \<Rightarrow> string \<Rightarrow> ServerConfig option" where
  "serversGet srv k =
     (case map_of srv k of
        Some c \<Rightarrow> Some c
      | None \<Rightarrow> if k \<in> set objectPrototypeKeys then Some inheritedMember else None)"

text \<open>\<^verbatim>\<open>Object.keys(config.servers)\<close>, as a JSON array.\<close>

definition gateNames :: "GuardConfig \<Rightarrow> json" where
  "gateNames config = JArr (map (\<lambda>kv. JStr (fst kv)) (servers config))"

definition statusPayload :: "GuardConfig \<Rightarrow> json" where
  "statusPayload config = JObj [(''status'', JStr ''ok''), (''gates'', gateNames config)]"

definition unknownGatePayload :: "GuardConfig \<Rightarrow> string \<Rightarrow> json" where
  "unknownGatePayload config gate_name =
     JObj [(''error'', JStr (''Unknown gate: '' @ [CHR 0x22] @ gate_name @ [CHR 0x22])),
           (''available'', gateNames config)]"

definition sessionNotFoundPayload :: json where
  "sessionNotFoundPayload =
     JObj [(''jsonrpc'', JStr ''2.0''),
           (''error'', JObj [(''code'', JNum (- 32001)), (''message'', JStr ''Session not found'')]),
           (''id'', JNull)]"

definition postRequiredPayload :: json where
  "postRequiredPayload = JObj [(''error'', JStr ''New sessions must start with POST'')]"

definition connectFailedPayload :: "thrown \<Rightarrow> json" where
  "connectFailedPayload err =
     JObj [(''error'', JStr (''Failed to connect to upstream: '' @ errorMessage err))]"

text \<open>
  The branch \<^verbatim>\<open>sessionId && sessions.has(sessionId)\<close>: the request is handed to the
  session's transport; a \<^verbatim>\<open>DELETE\<close> then removes the session, a \<^verbatim>\<open>POST\<close> has its body read
  first.
\<close>

definition continueSession ::
  "Env \<Rightarrow> ProxyState \<Rightarrow> string \<Rightarrow> Request \<Rightarrow> response promise \<times> ProxyState" where
  "continueSession env st sid req =
     (if req_method req = ''DELETE''
      then (case transportResult env of
              Fulfilled x \<Rightarrow> (Fulfilled ByTransport, st\<lparr>sessions := (sessions st)(sid := None)\<rparr>)
            | Rejected e \<Rightarrow> (Rejected e, st)
            | Pending \<Rightarrow> (Pending, st))
      else (case (if req_method req = ''POST'' then bodyResult env else Fulfilled None) of
              Fulfilled body \<Rightarrow>
                (case transportResult env of
                   Fulfilled x \<Rightarrow> (Fulfilled ByTransport, st)
                 | Rejected e \<Rightarrow> (Rejected e, st)
                 | Pending \<Rightarrow> (Pending, st))
            | Rejected e \<Rightarrow> (Rejected e, st)
            | Pending \<Rightarrow> (Pending, st)))"

text \<open>
  The new-session flow, from \<^verbatim>\<open>getGate\<close> on. The transport calls
  \<^verbatim>\<open>onsessioninitialized\<close>, which stores the session, while it handles the request, when the
  library initialises a session for it.
\<close>

definition openSession ::
  "Env \<Rightarrow> ProxyState \<Rightarrow> string \<Rightarrow> ServerConfig \<Rightarrow> response promise \<times> ProxyState" where
  "openSession env st gate_name gateConfig =
     (case getGate env st gate_name gateConfig of
        (Rejected err, st1) \<Rightarrow> (Fulfilled (Json 502 (connectFailedPayload err)), st1)
      | (Pending, st1) \<Rightarrow> (Pending, st1)
      | (Fulfilled gate, st1) \<Rightarrow>
          (case serverConnect env of
             Rejected e \<Rightarrow> (Rejected e, st1)
           | Pending \<Rightarrow> (Pending, st1)
           | Fulfilled x \<Rightarrow>
               (case bodyResult env of
                  Rejected e \<Rightarrow> (Rejected e, st1)
                | Pending \<Rightarrow> (Pending, st1)
                | Fulfilled body \<Rightarrow>
                    (let st2 =
                       (case initialized env of
                          None \<Rightarrow> st1
                        | Some sid \<Rightarrow>
                            st1\<lparr>sessions := (sessions st1)
                                  (sid \<mapsto> \<lparr>gateName = gate_name, server = (gate, gateConfig)\<rparr>)\<rparr>)
                     in (case transportResult env of
                           Fulfilled y \<Rightarrow> (Fulfilled ByTransport, st2)
                         | Rejected e \<Rightarrow> (Rejected e, st2)
                         | Pending \<Rightarrow> (Pending, st2))))))"

text \<open>
  \<^verbatim>\<open>handleRequest\<close>. The tests follow the source's order; \<^verbatim>\<open>!gateName\<close> and
  \<^verbatim>\<open>if (sessionId)\<close> are tests for a non-empty string.
\<close>

definition handleRequest ::
  "Env \<Rightarrow> GuardConfig \<Rightarrow> ProxyState \<Rightarrow> Request \<Rightarrow> response promise \<times> ProxyState" where
  "handleRequest env config st req =
     (let gate_name = gateNameOf (pathname req) in
      if gate_name = [] then (Fulfilled (Json 200 (statusPayload config)), st)
      else
        (case serversGet (servers config) gate_name of
           None \<Rightarrow> (Fulfilled (Json 404 (unknownGatePayload config gate_name)), st)
         | Some gateConfig \<Rightarrow>
             (case (case sessionId req of
                      None \<Rightarrow> None
                    | Some sid \<Rightarrow> if sid \<noteq> [] \<and> sessions st sid \<noteq> None then Some sid else None) of
                Some sid \<Rightarrow> continueSession env st sid req
              | None \<Rightarrow>
                  if sessionId req \<noteq> None \<and> sessionId req \<noteq> Some []
                  then (Fulfilled (Json 404 sessionNotFoundPayload), st)
                  else if req_method req \<noteq> ''POST''
                  then (Fulfilled (Json 400 postRequiredPayload), st)
                  else openSession env st gate_name gateConfig)))"

text \<open>Example data: one configured gate, and a state with one session on it.\<close>

definition exampleGuard :: GuardConfig where
  "exampleGuard = \<lparr>port = 6427, servers = [(''db'', exampleConfig)]\<rparr>"

definition exampleGate :: GateState where
  "exampleGate = \<lparr>upstream = 0, tools = [\<lparr>tool_name = ''execute_sql'', tool_description = None\<rparr>]\<rparr>"

definition busyState :: ProxyState where
  "busyState =
     \<lparr>sessions = [''s1'' \<mapsto> \<lparr>gateName = ''db'', server = (exampleGate, exampleConfig)\<rparr>],
      gates = [''db'' \<mapsto> exampleGate],
      clients = 1\<rparr>"

text \<open>
  Two more environments: one in which the protocol library initialises the session \<^verbatim>\<open>s9\<close>
  for the request, one in which the request body is not valid JSON.
\<close>

definition initEnv :: Env where
  "initEnv = exampleEnv\<lparr>initialized := Some ''s9''\<rparr>"

definition badBodyEnv :: Env where
  "badBodyEnv = exampleEnv\<lparr>bodyResult := Rejected (ErrorInstance ''Unexpected token'')\<rparr>"

section \<open>The toggle controller's status check (index.ts)\<close>

text \<open>
  The lock record is the file \<^verbatim>\<open>~/.mcp-guard.pid\<close>: \<open>None\<close> when it does not exist, its text
  otherwise. The host tells whether \<^verbatim>\<open>process.kill(pid, signal)\<close> returns (rather than
  throws) and what \<^verbatim>\<open>fetch\<close> of the status endpoint does within its timeout of one second:
  a response, with its \<^verbatim>\<open>ok\<close> flag, or a failure. Signal 0 delivers nothing; it only tests
  that the process exists. The effects of a run are listed in order.
\<close>

datatype signal = SignalZero | SIGTERM

datatype fetched = Response bool | FetchFailed

datatype effect = Kill int signal | Fetch nat | Unlink

record Host =
  killReturns :: "int \<Rightarrow> signal \<Rightarrow> bool"
  statusFetch :: "nat \<Rightarrow> fetched"

text \<open>
  \<^verbatim>\<open>trim\<close> and \<^verbatim>\<open>parseInt(s, 10)\<close> on ASCII text: white space is skipped, a sign is read, then
  the longest run of decimal digits; with no digit the result is \<^verbatim>\<open>NaN\<close>, here \<open>None\<close>.
\<close>

definition isWhiteSpace :: "char \<Rightarrow> bool" where
  "isWhiteSpace c = (c \<in> set [CHR 0x09, CHR 0x0A, CHR 0x0B, CHR 0x0C, CHR 0x0D, CHR 0x20])"

definition trim :: "string \<Rightarrow> string" where
  "trim s = rev (dropWhile isWhiteSpace (rev (dropWhile isWhiteSpace s)))"

definition isDigit :: "char \<Rightarrow> bool" where
  "isDigit c = (let n = (of_char c :: nat) in 48 \<le> n \<and> n \<le> 57)"

definition digitsToNat :: "string \<Rightarrow> nat" where
  "digitsToNat ds = foldl (\<lambda>acc c. 10 * acc + (of_char c - 48)) 0 ds"

definition parseInt :: "string \<Rightarrow> int option" where
  "parseInt s =
     (let t = dropWhile isWhiteSpace s;
          negative = (t \<noteq> [] \<and> hd t = CHR ''-'');
          body = (if t \<noteq> [] \<and> (hd t = CHR ''-'' \<or> hd t = CHR ''+'') then tl t else t);
          ds = takeWhile isDigit body
      in if ds = [] then None
         else Some (if negative then - int (digitsToNat ds) else int (digitsToNat ds)))"

definition isProcessRunning :: "Host \<Rightarrow> int \<Rightarrow> bool \<times> effect list" where
  "isProcessRunning host pid = (killReturns host pid SignalZero, [Kill pid SignalZero])"

text \<open>
  \<^verbatim>\<open>getRunningPid\<close> returns the process id of a running, responding proxy, or
  \<^verbatim>\<open>undefined\<close>; with it come the lock record afterwards and the effects.
\<close>

definition getRunningPid ::
  "Host \<Rightarrow> nat \<Rightarrow> string option \<Rightarrow> int option \<times> string option \<times> effect list" where
  "getRunningPid host prt pidFile =
     (case pidFile of
        None \<Rightarrow> (None, None, [])
      | Some text \<Rightarrow>
          (case parseInt (trim text) of
             None \<Rightarrow> (None, None, [Unlink])
           | Some pid \<Rightarrow>
               if \<not> fst (isProcessRunning host pid)
               then (None, None, snd (isProcessRunning host pid) @ [Unlink])
               else (case statusFetch host prt of
                       Response True \<Rightarrow>
                         (Some pid, Some text, snd (isProcessRunning host pid) @ [Fetch prt])
                     | Response False \<Rightarrow>
                         (None, None, snd (isProcessRunning host pid) @ [Fetch prt, Unlink])
                     | FetchFailed \<Rightarrow>
                         (None, None, snd (isProcessRunning host pid) @ [Fetch prt, Unlink]))))"

text \<open>
  \<^verbatim>\<open>turnOff\<close>, the one place that sends a termination signal: \<^verbatim>\<open>process.kill\<close> throws when
  the signal cannot be delivered, and the lock record then stays.
\<close>

definition turnOff :: "Host \<Rightarrow> int \<Rightarrow> string option \<Rightarrow> bool \<times> string option \<times> effect list" where
  "turnOff host pid pidFile =
     (if killReturns host pid SIGTERM
      then (True, None, [Kill pid SIGTERM, Unlink])
      else (False, pidFile, [Kill pid SIGTERM]))"

text \<open>Example hosts: no process is alive; the process is alive but nothing answers.\<close>

definition deadHost :: Host where
  "deadHost = \<lparr>killReturns = (\<lambda>pid s. False), statusFetch = (\<lambda>p. FetchFailed)\<rparr>"

definition silentHost :: Host where
  "silentHost = \<lparr>killReturns = (\<lambda>pid s. True), statusFetch = (\<lambda>p. FetchFailed)\<rparr>"

text \<open>A host on which the process is alive and the proxy answers.\<close>

definition liveHost :: Host where
  "liveHost = \<lparr>killReturns = (\<lambda>pid s. True), statusFetch = (\<lambda>p. Response True)\<rparr>"
section \<open>Properties of the block rule engine\<close>

lemma startsWith_iff: "startsWith s p \<longleftrightarrow> (\<exists>suf. s = p @ suf)"
  by (induction s p rule: startsWith.induct) auto

lemma str_includes_iff: "str_includes s p \<longleftrightarrow> (\<exists>pre suf. s = pre @ p @ suf)"
proof (induction s)
  case Nil
  then show ?case by auto
next
  case (Cons x xs)
  have "(\<exists>pre suf. x # xs = pre @ p @ suf) \<longleftrightarrow>
        (\<exists>suf. x # xs = p @ suf) \<or> (\<exists>pre suf. xs = pre @ p @ suf)"
  proof
    assume "\<exists>pre suf. x # xs = pre @ p @ suf"
    then obtain pre suf where e: "x # xs = pre @ p @ suf" by blast
    show "(\<exists>suf. x # xs = p @ suf) \<or> (\<exists>pre suf. xs = pre @ p @ suf)"
    proof (cases pre)
      case Nil
      with e show ?thesis by auto
    next
      case (Cons y ys)
      with e have "xs = ys @ p @ suf" by simp
      then show ?thesis by blast
    qed
  next
    assume "(\<exists>suf. x # xs = p @ suf) \<or> (\<exists>pre suf. xs = pre @ p @ suf)"
    then show "\<exists>pre suf. x # xs = pre @ p @ suf"
    proof
      assume "\<exists>suf. x # xs = p @ suf"
      then obtain suf where "x # xs = [] @ p @ suf" by auto
      then show ?thesis by blast
    next
      assume "\<exists>pre suf. xs = pre @ p @ suf"
      then obtain pre suf where "xs = pre @ p @ suf" by blast
      then have "x # xs = (x # pre) @ p @ suf" by simp
      then show ?thesis by blast
    qed
  qed
  with Cons show ?case by (simp only: str_includes.simps startsWith_iff)
qed

lemma fold_walk_set:
  assumes "\<And>x acc. x \<in> set xs \<Longrightarrow> set (walk x acc) = set acc \<union> {s. reachableLeaf x s}"
  shows "set (fold walk xs acc) = set acc \<union> {s. \<exists>x \<in> set xs. reachableLeaf x s}"
  using assms by (induction xs arbitrary: acc) auto

inductive_simps reachableLeaf_simps:
  "reachableLeaf (JStr s) t"
  "reachableLeaf (JArr xs) t"
  "reachableLeaf (JObj kvs) t"
  "reachableLeaf JNull t"
  "reachableLeaf (JBool b) t"
  "reachableLeaf (JNum n) t"

lemma walk_set: "set (walk j acc) = set acc \<union> {s. reachableLeaf j s}"
proof (induction j acc rule: walk.induct)
  case (2 xs vals)
  then have "set (fold walk xs vals) = set vals \<union> {s. \<exists>x \<in> set xs. reachableLeaf x s}"
    by (rule fold_walk_set)
  also have "{s. \<exists>x \<in> set xs. reachableLeaf x s} = {s. reachableLeaf (JArr xs) s}"
    by (auto simp: reachableLeaf_simps)
  finally show ?case by simp
next
  case (3 kvs vals)
  then have "set (fold walk (map snd kvs) vals) =
      set vals \<union> {s. \<exists>x \<in> set (map snd kvs). reachableLeaf x s}"
    by (rule fold_walk_set)
  also have "{s. \<exists>x \<in> set (map snd kvs). reachableLeaf x s} = {s. reachableLeaf (JObj kvs) s}"
    by (force simp: reachableLeaf_simps)
  finally show ?case by simp
qed (auto simp: reachableLeaf_simps)

lemma extractStrings_set: "set (extractStrings j) = {s. reachableLeaf j s}"
  by (simp add: extractStrings_def walk_set)

lemma anyValueIncludes_iff:
  "anyValueIncludes lower p vs \<longleftrightarrow> (\<exists>v \<in> set vs. loweredContains lower v p)"
  by (induction vs) (auto simp: str_includes_iff loweredContains_def occursIn_def)

lemma anyValueIncludes_patternHits:
  "anyValueIncludes lower p (extractStrings args) \<longleftrightarrow> patternHits lower args p"
  by (auto simp: anyValueIncludes_iff extractStrings_set patternHits_def)

lemma scanPatterns_blocked_iff:
  "scanPatterns lower vs ps = \<lparr>blocked = True, pattern = Some p\<rparr> \<longleftrightarrow>
     (\<exists>i < length ps. ps ! i = p \<and> anyValueIncludes lower p vs \<and>
        (\<forall>j < i. \<not> anyValueIncludes lower (ps ! j) vs))"
proof (induction ps)
  case Nil
  then show ?case by simp
next
  case (Cons q qs)
  show ?case
  proof (cases "anyValueIncludes lower q vs")
    case True
    have "(\<exists>i < length (q # qs). (q # qs) ! i = p \<and> anyValueIncludes lower p vs \<and>
        (\<forall>j < i. \<not> anyValueIncludes lower ((q # qs) ! j) vs)) \<longleftrightarrow> q = p"
    proof
      assume "\<exists>i < length (q # qs). (q # qs) ! i = p \<and> anyValueIncludes lower p vs \<and>
        (\<forall>j < i. \<not> anyValueIncludes lower ((q # qs) ! j) vs)"
      then obtain i where i: "(q # qs) ! i = p" "\<forall>j < i. \<not> anyValueIncludes lower ((q # qs) ! j) vs"
        by blast
      have "i = 0"
      proof (rule ccontr)
        assume "i \<noteq> 0"
        then have "0 < i" by simp
        with i(2) have "\<not> anyValueIncludes lower ((q # qs) ! 0) vs" by blast
        with True show False by simp
      qed
      with i(1) show "q = p" by simp
    next
      assume "q = p"
      with True have "0 < length (q # qs) \<and> (q # qs) ! 0 = p \<and> anyValueIncludes lower p vs \<and>
        (\<forall>j < 0. \<not> anyValueIncludes lower ((q # qs) ! j) vs)" by simp
      then show "\<exists>i < length (q # qs). (q # qs) ! i = p \<and> anyValueIncludes lower p vs \<and>
        (\<forall>j < i. \<not> anyValueIncludes lower ((q # qs) ! j) vs)" by blast
    qed
    with True show ?thesis by auto
  next
    case False
    have "(\<exists>i < length (q # qs). (q # qs) ! i = p \<and> anyValueIncludes lower p vs \<and>
        (\<forall>j < i. \<not> anyValueIncludes lower ((q # qs) ! j) vs)) \<longleftrightarrow>
          (\<exists>i < length qs. qs ! i = p \<and> anyValueIncludes lower p vs \<and>
        (\<forall>j < i. \<not> anyValueIncludes lower (qs ! j) vs))" (is "?L \<longleftrightarrow> ?R")
    proof
      assume ?L
      then obtain i where i: "i < length (q # qs)" "(q # qs) ! i = p" "anyValueIncludes lower p vs"
         "\<forall>j < i. \<not> anyValueIncludes lower ((q # qs) ! j) vs"
        by blast
      from i False obtain k where k: "i = Suc k" by (cases i) auto
      have "\<forall>j < k. \<not> anyValueIncludes lower (qs ! j) vs"
      proof (intro allI impI)
        fix j assume "j < k"
        then have "Suc j < i" using k by simp
        with i(4) have "\<not> anyValueIncludes lower ((q # qs) ! Suc j) vs" by blast
        then show "\<not> anyValueIncludes lower (qs ! j) vs" by simp
      qed
      with i k have "k < length qs \<and> qs ! k = p \<and> anyValueIncludes lower p vs \<and>
          (\<forall>j < k. \<not> anyValueIncludes lower (qs ! j) vs)" by simp
      then show ?R by blast
    next
      assume ?R
      then obtain k where k: "k < length qs" "qs ! k = p" "anyValueIncludes lower p vs"
         "\<forall>j < k. \<not> anyValueIncludes lower (qs ! j) vs"
        by blast
      have "\<forall>j < Suc k. \<not> anyValueIncludes lower ((q # qs) ! j) vs"
      proof (intro allI impI)
        fix j assume j: "j < Suc k"
        show "\<not> anyValueIncludes lower ((q # qs) ! j) vs"
        proof (cases j)
          case 0
          with False show ?thesis by simp
        next
          case (Suc m)
          with j k(4) show ?thesis by simp
        qed
      qed
      with k have "Suc k < length (q # qs) \<and> (q # qs) ! Suc k = p \<and> anyValueIncludes lower p vs \<and>
          (\<forall>j < Suc k. \<not> anyValueIncludes lower ((q # qs) ! j) vs)" by simp
      then show ?L by blast
    qed
    with False Cons show ?thesis by simp
  qed
qed

lemma scanPatterns_clear_iff:
  "scanPatterns lower vs ps = \<lparr>blocked = False, pattern = None\<rparr> \<longleftrightarrow>
     (\<forall>p \<in> set ps. \<not> anyValueIncludes lower p vs)"
  by (induction ps) auto

lemma scanPatterns_shape:
  "scanPatterns lower vs ps = \<lparr>blocked = False, pattern = None\<rparr> \<or>
   (\<exists>p. scanPatterns lower vs ps = \<lparr>blocked = True, pattern = Some p\<rparr>)"
  by (induction ps) auto

lemma fold_walk_blank:
  assumes "\<And>x acc. x \<in> set xs \<Longrightarrow> walk (f x) acc = walk x acc"
  shows "fold walk (map f xs) acc = fold walk xs acc"
  using assms by (induction xs arbitrary: acc) auto

lemma walk_blankScalars: "walk (blankScalars j) acc = walk j acc"
proof (induction j acc rule: walk.induct)
  case (2 xs vals)
  then show ?case by (simp add: fold_walk_blank)
next
  case (3 kvs vals)
  have "fold walk (map snd (map (\<lambda>kv. (fst kv, blankScalars (snd kv))) kvs)) vals
        = fold walk (map blankScalars (map snd kvs)) vals"
    by (simp add: comp_def)
  also have "\<dots> = fold walk (map snd kvs) vals"
    using 3 by (rule fold_walk_blank)
  finally show ?case by simp
qed simp_all

lemma reachableLeaf_iff: "reachableLeaf j s \<longleftrightarrow> s \<in> set (extractStrings j)"
  by (simp add: extractStrings_set)

lemma lowerAscii_sample:
  "lowerAscii ''@AZ[`az{ DROP Table_1'' = ''@az[`az{ drop table_1''"
  by (simp add: lowerAscii_def lowerAsciiChar_def)

lemma lowerAscii_Nil: "lowerAscii [] = []"
  by (simp add: lowerAscii_def)

lemma lowerGreekSample_values:
  "lowerGreekSample [CHR 0xCE, CHR 0x91, CHR 0xCE, CHR 0xA3] = [CHR 0xCE, CHR 0xB1, CHR 0xCF, CHR 0x82]"
  "lowerGreekSample [CHR 0xCE, CHR 0xA3] = [CHR 0xCF, CHR 0x83]"
  "lowerGreekSample ''Drop Table'' = ''drop table''"
  by (simp_all add: lowerGreekSample_def lowerAscii_def lowerAsciiChar_def)

lemma occursIn_empty: "occursIn [] v"
proof -
  have "v = [] @ [] @ v" by simp
  then show ?thesis
    unfolding occursIn_def by blast
qed

text \<open>
  What the engine computes, whatever the lower-case function: it reports blocked = true
  with pattern \<open>p\<close> exactly when \<open>p\<close> is the first pattern, in list order, whose lower-case
  form occurs in the lower-case form of some reachable string leaf; it is blocked exactly
  when some pattern hits in that way; it returns blocked = false, with no pattern, exactly
  when none does, in particular for the empty pattern list.
\<close>

lemma shouldBlock_first_matching_pattern:
  "(shouldBlock lower args patterns = \<lparr>blocked = True, pattern = Some p\<rparr> \<longleftrightarrow>
      (\<exists>i < length patterns. patterns ! i = p \<and> patternHits lower args p \<and>
         (\<forall>j < i. \<not> patternHits lower args (patterns ! j))))
   \<and> (blocked (shouldBlock lower args patterns) \<longleftrightarrow>
        (\<exists>q \<in> set patterns. patternHits lower args q))
   \<and> (shouldBlock lower args patterns = \<lparr>blocked = False, pattern = None\<rparr> \<longleftrightarrow>
        (\<forall>q \<in> set patterns. \<not> patternHits lower args q))
   \<and> shouldBlock lower args [] = \<lparr>blocked = False, pattern = None\<rparr>"
proof (intro conjI)
  show "shouldBlock lower args patterns = \<lparr>blocked = True, pattern = Some p\<rparr> \<longleftrightarrow>
      (\<exists>i < length patterns. patterns ! i = p \<and> patternHits lower args p \<and>
         (\<forall>j < i. \<not> patternHits lower args (patterns ! j)))"
    by (simp only: shouldBlock_def scanPatterns_blocked_iff anyValueIncludes_patternHits)
  show clear: "shouldBlock lower args patterns = \<lparr>blocked = False, pattern = None\<rparr> \<longleftrightarrow>
        (\<forall>q \<in> set patterns. \<not> patternHits lower args q)"
    by (simp only: shouldBlock_def scanPatterns_clear_iff anyValueIncludes_patternHits)
  show "blocked (shouldBlock lower args patterns) \<longleftrightarrow>
        (\<exists>q \<in> set patterns. patternHits lower args q)"
  proof -
    have "blocked (shouldBlock lower args patterns) \<longleftrightarrow>
          shouldBlock lower args patterns \<noteq> \<lparr>blocked = False, pattern = None\<rparr>"
      using scanPatterns_shape [of lower "extractStrings args" patterns]
      by (auto simp: shouldBlock_def)
    with clear show ?thesis by blast
  qed
  show "shouldBlock lower args [] = \<lparr>blocked = False, pattern = None\<rparr>"
    by (simp add: shouldBlock_def)
qed

text \<open>
  With a lower-case function that maps a string character by character, a leaf in which a
  pattern occurs is always blocked: the lower-case form of the pattern then occurs in the
  lower-case form of the leaf.
\<close>

lemma shouldBlock_characterwise_lower:
  assumes "reachableLeaf args v" and "p \<in> set patterns" and "occursIn p v"
  shows "blocked (shouldBlock (map f) args patterns)"
proof -
  from assms(3) obtain pre suf where "v = pre @ p @ suf"
    unfolding occursIn_def by blast
  then have "map f v = map f pre @ map f p @ map f suf" by simp
  then have "loweredContains (map f) v p"
    unfolding loweredContains_def occursIn_def by blast
  with assms(1) have "patternHits (map f) args p"
    unfolding patternHits_def by blast
  with assms(2) shouldBlock_first_matching_pattern [of "map f" args patterns]
  show ?thesis by blast
qed

text \<open>
  Claim C1, evaluated at the arguments \<^verbatim>\<open>{q: v}\<close>, where \<^verbatim>\<open>v\<close> is capital alpha followed by
  capital sigma (U+0391 U+03A3, the bytes CE 91 CE A3), with the single pattern capital
  sigma (U+03A3, the bytes CE A3). \<^verbatim>\<open>toLowerCase\<close> turns the leaf into small alpha, small
  final sigma (U+03B1 U+03C2, the bytes CE B1 CF 82) and the pattern into small sigma
  (U+03C3, the bytes CF 83). For every lower-case function that does so: the leaf is
  reachable, the pattern occurs in it as it stands, and the engine answers blocked = false.
\<close>

theorem shouldBlock_misses_final_sigma:
  "lower [CHR 0xCE, CHR 0x91, CHR 0xCE, CHR 0xA3] = [CHR 0xCE, CHR 0xB1, CHR 0xCF, CHR 0x82]
   \<and> lower [CHR 0xCE, CHR 0xA3] = [CHR 0xCF, CHR 0x83]
   \<longrightarrow>
     reachableLeaf (JObj [(''q'', JStr [CHR 0xCE, CHR 0x91, CHR 0xCE, CHR 0xA3])])
       [CHR 0xCE, CHR 0x91, CHR 0xCE, CHR 0xA3]
     \<and> str_includes [CHR 0xCE, CHR 0x91, CHR 0xCE, CHR 0xA3] [CHR 0xCE, CHR 0xA3]
     \<and> shouldBlock lower (JObj [(''q'', JStr [CHR 0xCE, CHR 0x91, CHR 0xCE, CHR 0xA3])])
         [[CHR 0xCE, CHR 0xA3]] = \<lparr>blocked = False, pattern = None\<rparr>"
proof (intro impI conjI)
  show "reachableLeaf (JObj [(''q'', JStr [CHR 0xCE, CHR 0x91, CHR 0xCE, CHR 0xA3])])
       [CHR 0xCE, CHR 0x91, CHR 0xCE, CHR 0xA3]"
    by (simp add: reachableLeaf_iff extractStrings_def)
  show "str_includes [CHR 0xCE, CHR 0x91, CHR 0xCE, CHR 0xA3] [CHR 0xCE, CHR 0xA3]"
    by simp
  assume "lower [CHR 0xCE, CHR 0x91, CHR 0xCE, CHR 0xA3] = [CHR 0xCE, CHR 0xB1, CHR 0xCF, CHR 0x82]
   \<and> lower [CHR 0xCE, CHR 0xA3] = [CHR 0xCF, CHR 0x83]"
  then show "shouldBlock lower (JObj [(''q'', JStr [CHR 0xCE, CHR 0x91, CHR 0xCE, CHR 0xA3])])
         [[CHR 0xCE, CHR 0xA3]] = \<lparr>blocked = False, pattern = None\<rparr>"
    by (simp add: shouldBlock_def extractStrings_def)
qed

text \<open>
  The theorem at \<open>lowerGreekSample\<close>, which maps the two strings as required. With
  \<open>lowerAscii\<close>, which maps character by character, the same arguments are blocked.
\<close>

theorem shouldBlock_misses_final_sigma_witness:
  "str_includes [CHR 0xCE, CHR 0x91, CHR 0xCE, CHR 0xA3] [CHR 0xCE, CHR 0xA3]
   \<and> shouldBlock lowerGreekSample (JObj [(''q'', JStr [CHR 0xCE, CHR 0x91, CHR 0xCE, CHR 0xA3])])
         [[CHR 0xCE, CHR 0xA3]] = \<lparr>blocked = False, pattern = None\<rparr>
   \<and> shouldBlock lowerAscii (JObj [(''q'', JStr [CHR 0xCE, CHR 0x91, CHR 0xCE, CHR 0xA3])])
         [[CHR 0xCE, CHR 0xA3]] = \<lparr>blocked = True, pattern = Some [CHR 0xCE, CHR 0xA3]\<rparr>"
proof -
  have ascii: "shouldBlock lowerAscii (JObj [(''q'', JStr [CHR 0xCE, CHR 0x91, CHR 0xCE, CHR 0xA3])])
         [[CHR 0xCE, CHR 0xA3]] = \<lparr>blocked = True, pattern = Some [CHR 0xCE, CHR 0xA3]\<rparr>"
    by (simp add: shouldBlock_def extractStrings_def lowerAscii_def lowerAsciiChar_def)
  from shouldBlock_misses_final_sigma [of lowerGreekSample] lowerGreekSample_values(1,2) ascii
  show ?thesis by blast
qed

text \<open>
  The characterisation at the arguments
  \<^verbatim>\<open>{query: "DROP TABLE x", opts: [1, {note: "Select all"}, null]}\<close> with patterns
  \<^verbatim>\<open>delete, select, drop\<close> and the ASCII lower-case function: the value collected first
  contains the third pattern, but the pattern reported is the second, the first one in list
  order with a hit.
\<close>

lemma shouldBlock_first_matching_pattern_example:
  "shouldBlock lowerAscii exampleArgs [''delete'', ''select'', ''drop''] =
      \<lparr>blocked = True, pattern = Some ''select''\<rparr>
   \<and> (\<exists>i < 3. [''delete'', ''select'', ''drop''] ! i = ''select'' \<and>
         patternHits lowerAscii exampleArgs ''select'' \<and>
         (\<forall>j < i. \<not> patternHits lowerAscii exampleArgs ([''delete'', ''select'', ''drop''] ! j)))"
proof -
  have run: "shouldBlock lowerAscii exampleArgs [''delete'', ''select'', ''drop''] =
      \<lparr>blocked = True, pattern = Some ''select''\<rparr>"
    by (simp add: shouldBlock_def extractStrings_def exampleArgs_def lowerAscii_def
        lowerAsciiChar_def)
  from shouldBlock_first_matching_pattern
         [of lowerAscii exampleArgs "[''delete'', ''select'', ''drop'']" "''select''"] run
  have "\<exists>i < length [''delete'', ''select'', ''drop'']. [''delete'', ''select'', ''drop''] ! i = ''select'' \<and>
         patternHits lowerAscii exampleArgs ''select'' \<and>
         (\<forall>j < i. \<not> patternHits lowerAscii exampleArgs ([''delete'', ''select'', ''drop''] ! j))"
    by blast
  with run show ?thesis by (simp add: numeral_3_eq_3)
qed

text \<open>
  Claim C10. Only string leaves are matched, whatever the lower-case function:
  \<^verbatim>\<open>{amount: 123}\<close> with pattern \<^verbatim>\<open>"123"\<close> is not blocked, a numeric, boolean or null value
  contributes no string, replacing every numeric and boolean leaf by null never changes the
  result, and a structure with no string leaf is never blocked. Conversely, when the pattern
  list contains the empty string, every structure with at least one string leaf is blocked;
  of the lower-case function this uses only that it maps the empty string to itself, as
  \<^verbatim>\<open>toLowerCase\<close> does.
\<close>

theorem shouldBlock_string_leaves_only:
  "shouldBlock lower (JObj [(''amount'', JNum 123)]) [''123''] = \<lparr>blocked = False, pattern = None\<rparr>
   \<and> extractStrings (JNum n) = [] \<and> extractStrings (JBool b) = [] \<and> extractStrings JNull = []
   \<and> shouldBlock lower (blankScalars args) patterns = shouldBlock lower args patterns
   \<and> ((\<forall>s. \<not> reachableLeaf args s) \<longrightarrow>
        shouldBlock lower args patterns = \<lparr>blocked = False, pattern = None\<rparr>)
   \<and> ((\<exists>s. reachableLeaf args s) \<and> [] \<in> set patterns \<and> lower [] = [] \<longrightarrow>
        blocked (shouldBlock lower args patterns))"
proof (intro conjI impI)
  show "shouldBlock lower (JObj [(''amount'', JNum 123)]) [''123''] = \<lparr>blocked = False, pattern = None\<rparr>"
    by (simp add: shouldBlock_def extractStrings_def)
  show "shouldBlock lower (blankScalars args) patterns = shouldBlock lower args patterns"
    by (simp add: shouldBlock_def extractStrings_def walk_blankScalars)
  show "shouldBlock lower args patterns = \<lparr>blocked = False, pattern = None\<rparr>"
    if "\<forall>s. \<not> reachableLeaf args s"
    using that
    by (simp add: shouldBlock_def scanPatterns_clear_iff anyValueIncludes_patternHits
        patternHits_def)
  show "blocked (shouldBlock lower args patterns)"
    if h: "(\<exists>s. reachableLeaf args s) \<and> [] \<in> set patterns \<and> lower [] = []"
  proof -
    from h have "patternHits lower args []"
      by (auto simp: patternHits_def loweredContains_def occursIn_empty)
    with h have "\<not> (\<forall>q \<in> set patterns. \<not> patternHits lower args q)" by blast
    then have "shouldBlock lower args patterns \<noteq> \<lparr>blocked = False, pattern = None\<rparr>"
      by (simp add: shouldBlock_def scanPatterns_clear_iff anyValueIncludes_patternHits)
    then show ?thesis
      using scanPatterns_shape [of lower "extractStrings args" patterns]
      by (auto simp: shouldBlock_def)
  qed
qed (simp_all add: extractStrings_def)

text \<open>
  The theorem at the example arguments (which have string leaves) and at \<^verbatim>\<open>[1, true, null]\<close>
  (which has none), both with the patterns \<^verbatim>\<open>"1"\<close> and \<^verbatim>\<open>""\<close> and the ASCII lower-case
  function.
\<close>

theorem shouldBlock_string_leaves_only_witness:
  "shouldBlock lowerAscii (blankScalars exampleArgs) [''1'', ''''] =
     shouldBlock lowerAscii exampleArgs [''1'', '''']
   \<and> reachableLeaf exampleArgs ''Select all''
   \<and> blocked (shouldBlock lowerAscii exampleArgs [''1'', ''''])
   \<and> shouldBlock lowerAscii exampleArgs [''1'', ''''] = \<lparr>blocked = True, pattern = Some ''''\<rparr>
   \<and> \<not> (\<exists>s. reachableLeaf (JArr [JNum 1, JBool True, JNull]) s)
   \<and> shouldBlock lowerAscii (JArr [JNum 1, JBool True, JNull]) [''1'', ''''] =
       \<lparr>blocked = False, pattern = None\<rparr>"
proof -
  have leaf: "reachableLeaf exampleArgs ''Select all''"
    by (simp add: reachableLeaf_iff extractStrings_def exampleArgs_def)
  have none: "\<forall>s. \<not> reachableLeaf (JArr [JNum 1, JBool True, JNull]) s"
    by (simp add: reachableLeaf_iff extractStrings_def)
  have run: "shouldBlock lowerAscii exampleArgs [''1'', ''''] = \<lparr>blocked = True, pattern = Some ''''\<rparr>"
    by (simp add: shouldBlock_def extractStrings_def exampleArgs_def lowerAscii_def
        lowerAsciiChar_def)
  from shouldBlock_string_leaves_only [where lower = lowerAscii and args = exampleArgs
         and patterns = "[''1'', '''']"] leaf lowerAscii_Nil
  have a: "shouldBlock lowerAscii (blankScalars exampleArgs) [''1'', ''''] =
             shouldBlock lowerAscii exampleArgs [''1'', '''']"
    and b: "blocked (shouldBlock lowerAscii exampleArgs [''1'', ''''])"
    by auto
  from shouldBlock_string_leaves_only [where lower = lowerAscii
         and args = "JArr [JNum 1, JBool True, JNull]" and patterns = "[''1'', '''']"] none
  have c: "shouldBlock lowerAscii (JArr [JNum 1, JBool True, JNull]) [''1'', ''''] =
             \<lparr>blocked = False, pattern = None\<rparr>"
    by blast
  from a b c leaf none run show ?thesis by blast
qed

section \<open>Properties of the gated operation mirror\<close>

lemma activePatterns_None_iff:
  "activePatterns cfg = None \<longleftrightarrow>
     enabled cfg = Some False \<or> block cfg = None \<or> block cfg = Some []"
  by (auto simp: activePatterns_def split: option.splits)

lemma activePatterns_Some_iff:
  "activePatterns cfg = Some pats \<longleftrightarrow>
     enabled cfg \<noteq> Some False \<and> block cfg = Some pats \<and> pats \<noteq> []"
  by (auto simp: activePatterns_def split: option.splits)

lemma forwardCall_spelled_out:
  "forwardCall callTool tool args =
     (case callTool tool args of
        Fulfilled r \<Rightarrow>
          Fulfilled \<lparr>content = (case result_content r of Some c \<Rightarrow> c | None \<Rightarrow> []),
                     isError = (case result_isError r of Some e \<Rightarrow> e | None \<Rightarrow> False)\<rparr>
      | Rejected err \<Rightarrow>
          Fulfilled
            \<lparr>content = [JObj [(''type'', JStr ''text''),
                              (''text'', JStr (''Upstream error: '' @
                                 (case err of ErrorInstance m \<Rightarrow> m | OtherValue s \<Rightarrow> s)))]],
             isError = True\<rparr>
      | Pending \<Rightarrow> Pending,
      [CallToolCall tool args])"
  by (simp add: forwardCall_def textContent_def errorMessage_def split: promise.splits)

lemma forwardCall_trace: "snd (forwardCall callTool tool args) = [CallToolCall tool args]"
  by (simp add: forwardCall_def)

lemma forwardCall_never_rejects: "fst (forwardCall callTool tool args) \<noteq> Rejected e"
  by (simp add: forwardCall_def split: promise.splits)

lemma shouldBlock_reports_a_pattern:
  assumes "blocked (shouldBlock lower args pats)"
  shows "\<exists>p. p \<in> set pats \<and> shouldBlock lower args pats = \<lparr>blocked = True, pattern = Some p\<rparr>"
proof -
  from assms scanPatterns_shape [of lower "extractStrings args" pats]
  obtain p where p: "shouldBlock lower args pats = \<lparr>blocked = True, pattern = Some p\<rparr>"
    by (auto simp: shouldBlock_def)
  then have "\<exists>i < length pats. pats ! i = p"
    unfolding shouldBlock_def scanPatterns_blocked_iff by blast
  then have "p \<in> set pats" by auto
  with p show ?thesis by blast
qed

text \<open>
  Claim C2. On a gate whose \<open>enabled\<close> is not explicitly false and whose block list is not
  empty, when the engine reports blocked = true it reports a pattern \<open>p\<close> of the list, and
  the handler fulfils with the error result
  \<^verbatim>\<open>{content: [{type: "text", text: t}], isError: true}\<close>, where \<^verbatim>\<open>t\<close> is the no-entry sign
  (U+26D4, three bytes in UTF-8) and a space, followed by \<open>blockMessage\<close> when it is set and
  otherwise by \<^verbatim>\<open>Blocked: matched pattern "p"\<close>. The handler's trace holds the engine call
  only, so the upstream's \<^verbatim>\<open>callTool\<close> is not invoked; the result is the same whatever the
  upstream would have answered.
\<close>

theorem blocked_call_answered_locally:
  assumes "enabled cfg \<noteq> Some False" and "block cfg = Some pats" and "pats \<noteq> []"
    and "blocked (shouldBlock lower args pats)"
  shows "\<exists>p. p \<in> set pats \<and> pattern (shouldBlock lower args pats) = Some p \<and>
           toolHandler lower callTool cfg tool args =
             (Fulfilled
                \<lparr>content =
                   [JObj [(''type'', JStr ''text''),
                          (''text'', JStr ([CHR 0xE2, CHR 0x9B, CHR 0x94, CHR 0x20] @
                             (case blockMessage cfg of
                                Some m \<Rightarrow> m
                              | None \<Rightarrow> ''Blocked: matched pattern '' @ [CHR 0x22] @ p @ [CHR 0x22])))]],
                 isError = True\<rparr>,
              [ShouldBlockCall args pats]) \<and>
           (\<forall>n a. CallToolCall n a \<notin> set (snd (toolHandler lower callTool cfg tool args)))"
proof -
  from assms(1-3) have act: "activePatterns cfg = Some pats"
    by (simp add: activePatterns_Some_iff)
  from shouldBlock_reports_a_pattern [OF assms(4)]
  obtain p where p: "p \<in> set pats"
      "shouldBlock lower args pats = \<lparr>blocked = True, pattern = Some p\<rparr>"
    by blast
  from p(2) have "pattern (shouldBlock lower args pats) = Some p" by simp
  moreover from act p(2) have "toolHandler lower callTool cfg tool args =
             (Fulfilled
                \<lparr>content =
                   [JObj [(''type'', JStr ''text''),
                          (''text'', JStr ([CHR 0xE2, CHR 0x9B, CHR 0x94, CHR 0x20] @
                             (case blockMessage cfg of
                                Some m \<Rightarrow> m
                              | None \<Rightarrow> ''Blocked: matched pattern '' @ [CHR 0x22] @ p @ [CHR 0x22])))]],
                 isError = True\<rparr>,
              [ShouldBlockCall args pats])"
    by (simp add: toolHandler_def blockedMessage_def textContent_def noEntryPrefix_def
        split: option.splits)
  ultimately show ?thesis using p(1) by simp
qed

text \<open>
  The scenario \<^verbatim>\<open>{query: "DROP TABLE x"}\<close> with the message \<^verbatim>\<open>no\<close>, and the same gate without
  a message, where the default message names \<^verbatim>\<open>DELETE\<close>; the upstream is one that would
  have answered.
\<close>

theorem blocked_call_answered_locally_witness:
  "toolHandler lowerAscii echoClient exampleConfig ''execute_sql''
       (JObj [(''query'', JStr ''DROP TABLE x'')]) =
     (Fulfilled
        \<lparr>content = [JObj [(''type'', JStr ''text''),
                          (''text'', JStr [CHR 0xE2, CHR 0x9B, CHR 0x94, CHR 0x20, CHR ''n'', CHR ''o''])]],
         isError = True\<rparr>,
      [ShouldBlockCall (JObj [(''query'', JStr ''DROP TABLE x'')]) [''DROP'', ''DELETE'']])
   \<and> toolHandler lowerAscii echoClient (exampleConfig\<lparr>blockMessage := None\<rparr>) ''execute_sql''
         (JObj [(''query'', JStr ''please delete it'')]) =
     (Fulfilled
        \<lparr>content = [JObj [(''type'', JStr ''text''),
                          (''text'', JStr ([CHR 0xE2, CHR 0x9B, CHR 0x94, CHR 0x20] @
                             ''Blocked: matched pattern '' @ [CHR 0x22] @ ''DELETE'' @ [CHR 0x22]))]],
         isError = True\<rparr>,
      [ShouldBlockCall (JObj [(''query'', JStr ''please delete it'')]) [''DROP'', ''DELETE'']])"
proof -
  have b1: "shouldBlock lowerAscii (JObj [(''query'', JStr ''DROP TABLE x'')]) [''DROP'', ''DELETE''] =
      \<lparr>blocked = True, pattern = Some ''DROP''\<rparr>"
    by (simp add: shouldBlock_def extractStrings_def lowerAscii_def lowerAsciiChar_def)
  have b2: "shouldBlock lowerAscii (JObj [(''query'', JStr ''please delete it'')]) [''DROP'', ''DELETE''] =
      \<lparr>blocked = True, pattern = Some ''DELETE''\<rparr>"
    by (simp add: shouldBlock_def extractStrings_def lowerAscii_def lowerAsciiChar_def)
  have c1: "enabled exampleConfig \<noteq> Some False" "block exampleConfig = Some [''DROP'', ''DELETE'']"
      "blockMessage exampleConfig = Some ''no''"
    by (simp_all add: exampleConfig_def)
  have c2: "enabled (exampleConfig\<lparr>blockMessage := None\<rparr>) \<noteq> Some False"
      "block (exampleConfig\<lparr>blockMessage := None\<rparr>) = Some [''DROP'', ''DELETE'']"
      "blockMessage (exampleConfig\<lparr>blockMessage := None\<rparr>) = None"
    by (simp_all add: exampleConfig_def)
  from blocked_call_answered_locally
         [OF c1(1) c1(2), of lowerAscii "JObj [(''query'', JStr ''DROP TABLE x'')]" echoClient
            "''execute_sql''"]
       b1 c1(3)
  have r1: "toolHandler lowerAscii echoClient exampleConfig ''execute_sql''
       (JObj [(''query'', JStr ''DROP TABLE x'')]) =
     (Fulfilled
        \<lparr>content = [JObj [(''type'', JStr ''text''),
                          (''text'', JStr [CHR 0xE2, CHR 0x9B, CHR 0x94, CHR 0x20, CHR ''n'', CHR ''o''])]],
         isError = True\<rparr>,
      [ShouldBlockCall (JObj [(''query'', JStr ''DROP TABLE x'')]) [''DROP'', ''DELETE'']])"
    by simp
  from blocked_call_answered_locally
         [OF c2(1) c2(2), of lowerAscii "JObj [(''query'', JStr ''please delete it'')]" echoClient
            "''execute_sql''"]
       b2 c2(3)
  have r2: "toolHandler lowerAscii echoClient (exampleConfig\<lparr>blockMessage := None\<rparr>) ''execute_sql''
         (JObj [(''query'', JStr ''please delete it'')]) =
     (Fulfilled
        \<lparr>content = [JObj [(''type'', JStr ''text''),
                          (''text'', JStr ([CHR 0xE2, CHR 0x9B, CHR 0x94, CHR 0x20] @
                             ''Blocked: matched pattern '' @ [CHR 0x22] @ ''DELETE'' @ [CHR 0x22]))]],
         isError = True\<rparr>,
      [ShouldBlockCall (JObj [(''query'', JStr ''please delete it'')]) [''DROP'', ''DELETE'']])"
    by simp
  from r1 r2 show ?thesis by (rule conjI)
qed

text \<open>
  Claim C3. When \<open>enabled\<close> is explicitly false, whatever the block list holds, and also
  when the block list is absent or empty, the handler calls the upstream once, with the
  tool name and the arguments it received, and the engine is not called: the trace is that
  one call, and the handler's outcome is decided by what \<open>callTool tool args\<close> does. A
  fulfilled answer is passed on, a rejection is answered with the text
  \<^verbatim>\<open>Upstream error:\<close> and the message, and while the upstream does not settle, neither does
  the handler.
\<close>

theorem disabled_or_empty_gate_forwards:
  assumes "enabled cfg = Some False \<or> block cfg = None \<or> block cfg = Some []"
  shows "toolHandler lower callTool cfg tool args =
           (case callTool tool args of
              Fulfilled r \<Rightarrow>
                Fulfilled \<lparr>content = (case result_content r of Some c \<Rightarrow> c | None \<Rightarrow> []),
                           isError = (case result_isError r of Some e \<Rightarrow> e | None \<Rightarrow> False)\<rparr>
            | Rejected err \<Rightarrow>
                Fulfilled
                  \<lparr>content = [JObj [(''type'', JStr ''text''),
                                    (''text'', JStr (''Upstream error: '' @
                                       (case err of ErrorInstance m \<Rightarrow> m | OtherValue s \<Rightarrow> s)))]],
                   isError = True\<rparr>
            | Pending \<Rightarrow> Pending,
            [CallToolCall tool args]) \<and>
         (\<forall>a ps. ShouldBlockCall a ps \<notin> set (snd (toolHandler lower callTool cfg tool args)))"
proof -
  from assms have "activePatterns cfg = None"
    by (simp add: activePatterns_None_iff)
  then have "toolHandler lower callTool cfg tool args = forwardCall callTool tool args"
    by (simp add: toolHandler_def)
  then show ?thesis
    by (simp add: forwardCall_spelled_out)
qed

text \<open>
  A disabled gate whose block list would have blocked the call, against three upstreams:
  one that answers with the name and the arguments it was given, one that fails, and one
  that answers with an error flag and no content.
\<close>

theorem disabled_or_empty_gate_forwards_witness:
  "blocked (shouldBlock lowerAscii (JObj [(''query'', JStr ''DROP TABLE x'')]) [''DROP'', ''DELETE''])
   \<and> toolHandler lowerAscii echoClient (exampleConfig\<lparr>enabled := Some False\<rparr>) ''execute_sql''
       (JObj [(''query'', JStr ''DROP TABLE x'')]) =
     (Fulfilled
        \<lparr>content = [JObj [(''type'', JStr ''text''), (''text'', JStr ''execute_sql'')],
                    JObj [(''query'', JStr ''DROP TABLE x'')]],
         isError = False\<rparr>,
      [CallToolCall ''execute_sql'' (JObj [(''query'', JStr ''DROP TABLE x'')])])
   \<and> toolHandler lowerAscii failingClient (exampleConfig\<lparr>enabled := Some False\<rparr>) ''list_tables''
       (JObj [(''query'', JStr ''DROP TABLE x'')]) =
     (Fulfilled
        \<lparr>content = [JObj [(''type'', JStr ''text''),
                          (''text'', JStr ''Upstream error: fetch failed: list_tables'')]],
         isError = True\<rparr>,
      [CallToolCall ''list_tables'' (JObj [(''query'', JStr ''DROP TABLE x'')])])
   \<and> toolHandler lowerAscii flaggingClient (exampleConfig\<lparr>block := Some []\<rparr>) ''execute_sql''
       (JObj [(''query'', JStr ''DROP TABLE x'')]) =
     (Fulfilled \<lparr>content = [], isError = True\<rparr>,
      [CallToolCall ''execute_sql'' (JObj [(''query'', JStr ''DROP TABLE x'')])])"
proof -
  have off: "enabled (exampleConfig\<lparr>enabled := Some False\<rparr>) = Some False \<or>
             block (exampleConfig\<lparr>enabled := Some False\<rparr>) = None \<or>
             block (exampleConfig\<lparr>enabled := Some False\<rparr>) = Some []"
    by simp
  have empty: "enabled (exampleConfig\<lparr>block := Some []\<rparr>) = Some False \<or>
             block (exampleConfig\<lparr>block := Some []\<rparr>) = None \<or>
             block (exampleConfig\<lparr>block := Some []\<rparr>) = Some []"
    by simp
  have b: "blocked (shouldBlock lowerAscii (JObj [(''query'', JStr ''DROP TABLE x'')]) [''DROP'', ''DELETE''])"
    by (simp add: shouldBlock_def extractStrings_def lowerAscii_def lowerAsciiChar_def)
  from disabled_or_empty_gate_forwards [OF off, of lowerAscii echoClient "''execute_sql''"
         "JObj [(''query'', JStr ''DROP TABLE x'')]"]
  have r1: "toolHandler lowerAscii echoClient (exampleConfig\<lparr>enabled := Some False\<rparr>) ''execute_sql''
       (JObj [(''query'', JStr ''DROP TABLE x'')]) =
     (Fulfilled
        \<lparr>content = [JObj [(''type'', JStr ''text''), (''text'', JStr ''execute_sql'')],
                    JObj [(''query'', JStr ''DROP TABLE x'')]],
         isError = False\<rparr>,
      [CallToolCall ''execute_sql'' (JObj [(''query'', JStr ''DROP TABLE x'')])])"
    by (simp add: echoClient_def)
  from disabled_or_empty_gate_forwards [OF off, of lowerAscii failingClient "''list_tables''"
         "JObj [(''query'', JStr ''DROP TABLE x'')]"]
  have r2: "toolHandler lowerAscii failingClient (exampleConfig\<lparr>enabled := Some False\<rparr>) ''list_tables''
       (JObj [(''query'', JStr ''DROP TABLE x'')]) =
     (Fulfilled
        \<lparr>content = [JObj [(''type'', JStr ''text''),
                          (''text'', JStr ''Upstream error: fetch failed: list_tables'')]],
         isError = True\<rparr>,
      [CallToolCall ''list_tables'' (JObj [(''query'', JStr ''DROP TABLE x'')])])"
    by (simp add: failingClient_def)
  from disabled_or_empty_gate_forwards [OF empty, of lowerAscii flaggingClient "''execute_sql''"
         "JObj [(''query'', JStr ''DROP TABLE x'')]"]
  have r3: "toolHandler lowerAscii flaggingClient (exampleConfig\<lparr>block := Some []\<rparr>) ''execute_sql''
       (JObj [(''query'', JStr ''DROP TABLE x'')]) =
     (Fulfilled \<lparr>content = [], isError = True\<rparr>,
      [CallToolCall ''execute_sql'' (JObj [(''query'', JStr ''DROP TABLE x'')])])"
    by (simp add: flaggingClient_def)
  from b r1 r2 r3 show ?thesis by blast
qed

lemma toolHandler_forwarded:
  assumes "CallToolCall n a \<in> set (snd (toolHandler lower callTool cfg tool args))"
  shows "n = tool \<and> a = args \<and>
         fst (toolHandler lower callTool cfg tool args) = fst (forwardCall callTool tool args)"
  using assms
  by (auto simp: toolHandler_def forwardCall_trace Let_def split: option.splits if_splits)

text \<open>
  Claim C4. For a forwarded invocation (one whose trace holds the upstream call): when the
  upstream fulfils with a result, the handler fulfils with that result's content and error
  flag (an absent content read as the empty list, an absent flag as false); when the
  upstream call rejects with an \<^verbatim>\<open>Error\<close> of message \<^verbatim>\<open>m\<close>, or with another value whose
  string form is \<^verbatim>\<open>s\<close>, the handler fulfils with
  \<^verbatim>\<open>{content: [{type: "text", text: "Upstream error: " + m}], isError: true}\<close>, respectively
  with \<^verbatim>\<open>s\<close> in place of \<^verbatim>\<open>m\<close>. Whatever the configuration, the arguments and the upstream,
  the handler never rejects.
\<close>

theorem forwarded_call_relays_or_reports:
  "(CallToolCall tool args \<in> set (snd (toolHandler lower callTool cfg tool args)) \<and>
      callTool tool args = Fulfilled \<lparr>result_content = rc, result_isError = re\<rparr> \<longrightarrow>
        fst (toolHandler lower callTool cfg tool args) =
          Fulfilled \<lparr>content = (case rc of Some c \<Rightarrow> c | None \<Rightarrow> []),
                     isError = (case re of Some e \<Rightarrow> e | None \<Rightarrow> False)\<rparr>)
   \<and> (CallToolCall tool args \<in> set (snd (toolHandler lower callTool cfg tool args)) \<and>
      callTool tool args = Rejected (ErrorInstance m) \<longrightarrow>
        fst (toolHandler lower callTool cfg tool args) =
          Fulfilled \<lparr>content = [JObj [(''type'', JStr ''text''),
                                      (''text'', JStr (''Upstream error: '' @ m))]],
                     isError = True\<rparr>)
   \<and> (CallToolCall tool args \<in> set (snd (toolHandler lower callTool cfg tool args)) \<and>
      callTool tool args = Rejected (OtherValue s) \<longrightarrow>
        fst (toolHandler lower callTool cfg tool args) =
          Fulfilled \<lparr>content = [JObj [(''type'', JStr ''text''),
                                      (''text'', JStr (''Upstream error: '' @ s))]],
                     isError = True\<rparr>)
   \<and> (\<forall>e. fst (toolHandler lower callTool cfg tool args) \<noteq> Rejected e)"
proof (intro conjI impI allI)
  assume h: "CallToolCall tool args \<in> set (snd (toolHandler lower callTool cfg tool args)) \<and>
      callTool tool args = Fulfilled \<lparr>result_content = rc, result_isError = re\<rparr>"
  then have "fst (toolHandler lower callTool cfg tool args) = fst (forwardCall callTool tool args)"
    using toolHandler_forwarded by blast
  with h show "fst (toolHandler lower callTool cfg tool args) =
          Fulfilled \<lparr>content = (case rc of Some c \<Rightarrow> c | None \<Rightarrow> []),
                     isError = (case re of Some e \<Rightarrow> e | None \<Rightarrow> False)\<rparr>"
    by (simp add: forwardCall_spelled_out)
next
  assume h: "CallToolCall tool args \<in> set (snd (toolHandler lower callTool cfg tool args)) \<and>
      callTool tool args = Rejected (ErrorInstance m)"
  then have "fst (toolHandler lower callTool cfg tool args) = fst (forwardCall callTool tool args)"
    using toolHandler_forwarded by blast
  with h show "fst (toolHandler lower callTool cfg tool args) =
          Fulfilled \<lparr>content = [JObj [(''type'', JStr ''text''),
                                      (''text'', JStr (''Upstream error: '' @ m))]],
                     isError = True\<rparr>"
    by (simp add: forwardCall_spelled_out)
next
  assume h: "CallToolCall tool args \<in> set (snd (toolHandler lower callTool cfg tool args)) \<and>
      callTool tool args = Rejected (OtherValue s)"
  then have "fst (toolHandler lower callTool cfg tool args) = fst (forwardCall callTool tool args)"
    using toolHandler_forwarded by blast
  with h show "fst (toolHandler lower callTool cfg tool args) =
          Fulfilled \<lparr>content = [JObj [(''type'', JStr ''text''),
                                      (''text'', JStr (''Upstream error: '' @ s))]],
                     isError = True\<rparr>"
    by (simp add: forwardCall_spelled_out)
next
  fix e
  show "fst (toolHandler lower callTool cfg tool args) \<noteq> Rejected e"
    by (simp add: toolHandler_def Let_def forwardCall_never_rejects split: option.splits)
qed

text \<open>
  The scenario's \<^verbatim>\<open>{query: "SELECT 1"}\<close> on the gate with patterns \<^verbatim>\<open>DROP\<close> and \<^verbatim>\<open>DELETE\<close>,
  against four upstreams: one that answers with the name and the arguments, one that
  answers with an error flag and no content, one whose calls fail with an \<^verbatim>\<open>Error\<close> naming
  the tool, and one whose calls fail with a thrown string.
\<close>

theorem forwarded_call_relays_or_reports_witness:
  "toolHandler lowerAscii echoClient exampleConfig ''execute_sql'' (JObj [(''query'', JStr ''SELECT 1'')]) =
     (Fulfilled
        \<lparr>content = [JObj [(''type'', JStr ''text''), (''text'', JStr ''execute_sql'')],
                    JObj [(''query'', JStr ''SELECT 1'')]],
         isError = False\<rparr>,
      [ShouldBlockCall (JObj [(''query'', JStr ''SELECT 1'')]) [''DROP'', ''DELETE''],
       CallToolCall ''execute_sql'' (JObj [(''query'', JStr ''SELECT 1'')])])
   \<and> fst (toolHandler lowerAscii flaggingClient exampleConfig ''execute_sql''
            (JObj [(''query'', JStr ''SELECT 1'')])) =
     Fulfilled \<lparr>content = [], isError = True\<rparr>
   \<and> fst (toolHandler lowerAscii failingClient exampleConfig ''execute_sql''
            (JObj [(''query'', JStr ''SELECT 1'')])) =
     Fulfilled \<lparr>content = [JObj [(''type'', JStr ''text''),
                                 (''text'', JStr ''Upstream error: fetch failed: execute_sql'')]],
                isError = True\<rparr>
   \<and> fst (toolHandler lowerAscii throwingClient exampleConfig ''execute_sql''
            (JObj [(''query'', JStr ''SELECT 1'')])) =
     Fulfilled \<lparr>content = [JObj [(''type'', JStr ''text''),
                                 (''text'', JStr ''Upstream error: timeout'')]],
                isError = True\<rparr>"
proof -
  have nb: "shouldBlock lowerAscii (JObj [(''query'', JStr ''SELECT 1'')]) [''DROP'', ''DELETE''] =
      \<lparr>blocked = False, pattern = None\<rparr>"
    by (simp add: shouldBlock_def extractStrings_def lowerAscii_def lowerAsciiChar_def)
  have act: "activePatterns exampleConfig = Some [''DROP'', ''DELETE'']"
    by (simp add: activePatterns_def exampleConfig_def)
  have tr: "\<And>client. snd (toolHandler lowerAscii client exampleConfig ''execute_sql''
                (JObj [(''query'', JStr ''SELECT 1'')])) =
      [ShouldBlockCall (JObj [(''query'', JStr ''SELECT 1'')]) [''DROP'', ''DELETE''],
       CallToolCall ''execute_sql'' (JObj [(''query'', JStr ''SELECT 1'')])]"
    by (simp add: toolHandler_def act nb forwardCall_trace)
  have fw: "\<And>client. CallToolCall ''execute_sql'' (JObj [(''query'', JStr ''SELECT 1'')])
           \<in> set (snd (toolHandler lowerAscii client exampleConfig ''execute_sql''
                          (JObj [(''query'', JStr ''SELECT 1'')])))"
    by (simp add: tr)
  have e1: "echoClient ''execute_sql'' (JObj [(''query'', JStr ''SELECT 1'')]) =
      Fulfilled \<lparr>result_content = Some [JObj [(''type'', JStr ''text''), (''text'', JStr ''execute_sql'')],
                                        JObj [(''query'', JStr ''SELECT 1'')]],
                 result_isError = None\<rparr>"
    by (simp add: echoClient_def)
  have e2: "flaggingClient ''execute_sql'' (JObj [(''query'', JStr ''SELECT 1'')]) =
      Fulfilled \<lparr>result_content = None, result_isError = Some True\<rparr>"
    by (simp add: flaggingClient_def)
  have e3: "failingClient ''execute_sql'' (JObj [(''query'', JStr ''SELECT 1'')]) =
      Rejected (ErrorInstance ''fetch failed: execute_sql'')"
    by (simp add: failingClient_def)
  have e4: "throwingClient ''execute_sql'' (JObj [(''query'', JStr ''SELECT 1'')]) =
      Rejected (OtherValue ''timeout'')"
    by (simp add: throwingClient_def)
  from forwarded_call_relays_or_reports [where lower = lowerAscii and callTool = echoClient
         and cfg = exampleConfig and tool = "''execute_sql''"
         and args = "JObj [(''query'', JStr ''SELECT 1'')]"] fw [of echoClient] e1
  have r1: "fst (toolHandler lowerAscii echoClient exampleConfig ''execute_sql''
                   (JObj [(''query'', JStr ''SELECT 1'')])) =
     Fulfilled
        \<lparr>content = [JObj [(''type'', JStr ''text''), (''text'', JStr ''execute_sql'')],
                    JObj [(''query'', JStr ''SELECT 1'')]],
         isError = False\<rparr>"
    by simp
  from forwarded_call_relays_or_reports [where lower = lowerAscii and callTool = flaggingClient
         and cfg = exampleConfig and tool = "''execute_sql''"
         and args = "JObj [(''query'', JStr ''SELECT 1'')]"] fw [of flaggingClient] e2
  have r2: "fst (toolHandler lowerAscii flaggingClient exampleConfig ''execute_sql''
            (JObj [(''query'', JStr ''SELECT 1'')])) =
     Fulfilled \<lparr>content = [], isError = True\<rparr>"
    by simp
  from forwarded_call_relays_or_reports [where lower = lowerAscii and callTool = failingClient
         and cfg = exampleConfig and tool = "''execute_sql''"
         and args = "JObj [(''query'', JStr ''SELECT 1'')]"] fw [of failingClient] e3
  have r3: "fst (toolHandler lowerAscii failingClient exampleConfig ''execute_sql''
            (JObj [(''query'', JStr ''SELECT 1'')])) =
     Fulfilled \<lparr>content = [JObj [(''type'', JStr ''text''),
                                 (''text'', JStr ''Upstream error: fetch failed: execute_sql'')]],
                isError = True\<rparr>"
    by simp
  from forwarded_call_relays_or_reports [where lower = lowerAscii and callTool = throwingClient
         and cfg = exampleConfig and tool = "''execute_sql''"
         and args = "JObj [(''query'', JStr ''SELECT 1'')]"] fw [of throwingClient] e4
  have r4: "fst (toolHandler lowerAscii throwingClient exampleConfig ''execute_sql''
            (JObj [(''query'', JStr ''SELECT 1'')])) =
     Fulfilled \<lparr>content = [JObj [(''type'', JStr ''text''),
                                 (''text'', JStr ''Upstream error: timeout'')]],
                isError = True\<rparr>"
    by simp
  from r1 tr [of echoClient]
  have r1': "toolHandler lowerAscii echoClient exampleConfig ''execute_sql'' (JObj [(''query'', JStr ''SELECT 1'')]) =
     (Fulfilled
        \<lparr>content = [JObj [(''type'', JStr ''text''), (''text'', JStr ''execute_sql'')],
                    JObj [(''query'', JStr ''SELECT 1'')]],
         isError = False\<rparr>,
      [ShouldBlockCall (JObj [(''query'', JStr ''SELECT 1'')]) [''DROP'', ''DELETE''],
       CallToolCall ''execute_sql'' (JObj [(''query'', JStr ''SELECT 1'')])])"
    by (simp add: prod_eq_iff)
  from r1' r2 r3 r4 show ?thesis by blast
qed

text \<open>
  \<open>createGatedServer\<close> registers the tools in the order the upstream listed them, each
  with the handler for its own name.
\<close>

lemma createGatedServer_registrations:
  "map fst (createGatedServer lower clientOf gate cfg) = map tool_name (tools gate)"
  "(nm, h) \<in> set (createGatedServer lower clientOf gate cfg) \<Longrightarrow>
     h = toolHandler lower (clientOf (upstream gate)) cfg nm"
  by (auto simp: createGatedServer_def comp_def)

section \<open>Properties of the gate registry\<close>

lemma connectUpstream_gates: "gates (snd (connectUpstream env st nm config)) = gates st"
  by (simp add: connectUpstream_def split: option.splits)

lemma connectUpstream_sessions: "sessions (snd (connectUpstream env st nm config)) = sessions st"
  by (simp add: connectUpstream_def split: option.splits)

lemma getGate_Rejected_gates:
  assumes "getGate env st nm config = (Rejected e, st')"
  shows "gates st' = gates st \<and> sessions st' = sessions st \<and> gates st nm = None"
proof (cases "gates st nm")
  case None
  obtain r s where c: "connectUpstream env st nm config = (r, s)"
    by (cases "connectUpstream env st nm config")
  from connectUpstream_gates [of env st nm config] connectUpstream_sessions [of env st nm config] c
  have s: "gates s = gates st" "sessions s = sessions st" by simp_all
  from assms None c have "st' = s"
    by (cases r) (auto simp: getGate_def)
  with s None show ?thesis by simp
next
  case (Some g)
  with assms show ?thesis by (simp add: getGate_def)
qed

text \<open>
  Claim C5. If the registry already holds a gate for the name, \<open>getGate\<close> returns it and
  leaves the state as it was: no client is created, so no connection is attempted. If
  \<open>getGate\<close> fails, the map of gates is what it was before the call and holds nothing for
  the name; a later call for the name runs \<open>connectUpstream\<close> again, creating a new client
  whenever the URL is usable, and caches what that attempt returns.
\<close>

theorem getGate_cache_and_retry:
  "(gates st nm = Some g \<longrightarrow> getGate env st nm config = (Fulfilled g, st))
   \<and> (getGate env st nm config = (Rejected e, st') \<longrightarrow>
        gates st' = gates st \<and> gates st' nm = None \<and>
        getGate env st' nm config =
          (case connectUpstream env st' nm config of
             (Fulfilled gate, s) \<Rightarrow> (Fulfilled gate, s\<lparr>gates := (gates s)(nm \<mapsto> gate)\<rparr>)
           | (Rejected e', s) \<Rightarrow> (Rejected e', s)
           | (Pending, s) \<Rightarrow> (Pending, s)) \<and>
        (\<forall>u. urlOf env config = Some u \<longrightarrow>
           clients (snd (getGate env st' nm config)) = Suc (clients st')))"
proof (intro conjI impI allI)
  assume "gates st nm = Some g"
  then show "getGate env st nm config = (Fulfilled g, st)"
    by (simp add: getGate_def)
next
  assume r: "getGate env st nm config = (Rejected e, st')"
  from getGate_Rejected_gates [OF r]
  show g: "gates st' = gates st" and n: "gates st' nm = None" by simp_all
  from n show "getGate env st' nm config =
          (case connectUpstream env st' nm config of
             (Fulfilled gate, s) \<Rightarrow> (Fulfilled gate, s\<lparr>gates := (gates s)(nm \<mapsto> gate)\<rparr>)
           | (Rejected e', s) \<Rightarrow> (Rejected e', s)
           | (Pending, s) \<Rightarrow> (Pending, s))"
    by (simp add: getGate_def)
  fix u assume "urlOf env config = Some u"
  with n show "clients (snd (getGate env st' nm config)) = Suc (clients st')"
    by (simp add: getGate_def connectUpstream_def split: promise.splits)
qed

text \<open>
  An upstream that refuses the first client and accepts the second: the first call fails
  and caches nothing, the second connects with client number 1 and caches the gate, the
  third returns the cached gate and creates no client.
\<close>

theorem getGate_cache_and_retry_witness:
  "getGate refusingEnv emptyState ''db'' exampleConfig =
      (Rejected (ErrorInstance ''fetch failed''), emptyState\<lparr>clients := 1\<rparr>)
   \<and> gates (emptyState\<lparr>clients := 1\<rparr>) ''db'' = None
   \<and> getGate refusingEnv (emptyState\<lparr>clients := 1\<rparr>) ''db'' exampleConfig =
      (Fulfilled gate1, emptyState\<lparr>clients := 2, gates := [''db'' \<mapsto> gate1]\<rparr>)
   \<and> getGate refusingEnv (emptyState\<lparr>clients := 2, gates := [''db'' \<mapsto> gate1]\<rparr>) ''db'' exampleConfig =
      (Fulfilled gate1, emptyState\<lparr>clients := 2, gates := [''db'' \<mapsto> gate1]\<rparr>)"
proof -
  have u: "urlOf refusingEnv exampleConfig = Some ''http://up/db''"
    by (simp add: urlOf_def refusingEnv_def exampleEnv_def exampleConfig_def)
  have cr0: "connectResult refusingEnv 0 ''http://up/db'' = Rejected (ErrorInstance ''fetch failed'')"
    by (simp add: refusingEnv_def)
  have cr1: "connectResult refusingEnv (Suc 0) ''http://up/db'' =
      Fulfilled [\<lparr>tool_name = ''execute_sql'', tool_description = None\<rparr>]"
    by (simp add: refusingEnv_def)
  have first: "getGate refusingEnv emptyState ''db'' exampleConfig =
      (Rejected (ErrorInstance ''fetch failed''), emptyState\<lparr>clients := 1\<rparr>)"
    by (simp add: getGate_def connectUpstream_def u emptyState_def cr0)
  have c: "connectUpstream refusingEnv (emptyState\<lparr>clients := 1\<rparr>) ''db'' exampleConfig =
      (Fulfilled gate1, emptyState\<lparr>clients := 2\<rparr>)"
    by (simp add: connectUpstream_def u emptyState_def cr1 gate1_def)
  from getGate_cache_and_retry [where env = refusingEnv and st = emptyState and nm = "''db''"
         and config = exampleConfig and e = "ErrorInstance ''fetch failed''"
         and st' = "emptyState\<lparr>clients := 1\<rparr>"] first c
  have second: "gates (emptyState\<lparr>clients := 1\<rparr>) ''db'' = None"
    "getGate refusingEnv (emptyState\<lparr>clients := 1\<rparr>) ''db'' exampleConfig =
      (Fulfilled gate1, emptyState\<lparr>clients := 2, gates := [''db'' \<mapsto> gate1]\<rparr>)"
    by (simp_all add: emptyState_def)
  have "gates (emptyState\<lparr>clients := 2, gates := [''db'' \<mapsto> gate1]\<rparr>) ''db'' = Some gate1"
    by simp
  with getGate_cache_and_retry [where env = refusingEnv and nm = "''db''" and g = gate1
         and st = "emptyState\<lparr>clients := 2, gates := [''db'' \<mapsto> gate1]\<rparr>"
         and config = exampleConfig]
  have third: "getGate refusingEnv (emptyState\<lparr>clients := 2, gates := [''db'' \<mapsto> gate1]\<rparr>) ''db'' exampleConfig =
      (Fulfilled gate1, emptyState\<lparr>clients := 2, gates := [''db'' \<mapsto> gate1]\<rparr>)"
    by blast
  from first second third show ?thesis by blast
qed

lemma getGate_as_steps:
  "getGate env st nm config =
     (case getGate_enter env st nm config of
        (Returned r, st1) \<Rightarrow> (r, st1)
      | (AwaitingConnect nm' n u, st1) \<Rightarrow>
          (case getGate_resume env st1 nm' n u of
             (Returned r, st2) \<Rightarrow> (r, st2)
           | (c, st2) \<Rightarrow> (Pending, st2))
      | (Called nm' config', st1) \<Rightarrow> (Pending, st1))"
  by (simp add: getGate_def getGate_enter_def getGate_resume_def connectUpstream_def
      split: option.splits promise.splits)

lemma enter_empty:
  assumes "urlOf env config = Some u" and "gates st nm = None"
  shows "getGate_enter env st nm config =
           (AwaitingConnect nm (clients st) u, st\<lparr>clients := Suc (clients st)\<rparr>)"
  using assms by (simp add: getGate_enter_def)

lemma resume_fulfilled:
  assumes "connectResult env k u = Fulfilled ts"
  shows "getGate_resume env st nm k u =
           (Returned (Fulfilled \<lparr>upstream = k, tools = ts\<rparr>),
            st\<lparr>gates := (gates st)(nm \<mapsto> \<lparr>upstream = k, tools = ts\<rparr>)\<rparr>)"
  using assms by (simp add: getGate_resume_def)

lemma resume_clients: "clients (snd (getGate_resume env st nm k u)) = clients st"
  by (simp add: getGate_resume_def split: promise.splits)

lemma stepCall_entered:
  assumes "entered c"
  shows "entered (fst (stepCall env st c)) \<and> clients (snd (stepCall env st c)) = clients st"
  using assms
  by (cases c) (auto simp: entered_def getGate_resume_def split: promise.splits)

lemma runSchedule_entered_clients:
  assumes "list_all entered calls"
  shows "clients (snd (runSchedule env sched (calls, st))) = clients st"
  using assms
proof (induction sched arbitrary: calls st)
  case Nil
  then show ?case by simp
next
  case (Cons i rest)
  show ?case
  proof (cases "i < length calls")
    case False
    with Cons show ?thesis by simp
  next
    case True
    with Cons.prems have e: "entered (calls ! i)"
      by (simp add: list_all_length)
    from stepCall_entered [OF e, of env st]
    have e': "entered (fst (stepCall env st (calls ! i)))"
      and c': "clients (snd (stepCall env st (calls ! i))) = clients st" by simp_all
    from Cons.prems e' have "list_all entered (calls[i := fst (stepCall env st (calls ! i))])"
      using set_update_subset_insert [of calls i "fst (stepCall env st (calls ! i))"]
      by (auto simp: list_all_iff)
    from Cons.IH [OF this, of "snd (stepCall env st (calls ! i))"] c' True
    show ?thesis by simp
  qed
qed

lemma run_both_returned:
  "runSchedule env sched ([Returned r0, Returned r1], st) = ([Returned r0, Returned r1], st)"
proof (induction sched)
  case Nil
  then show ?case by simp
next
  case (Cons i rest)
  consider "i = 0" | "i = 1" | "2 \<le> i" by linarith
  then show ?case
    using Cons by cases simp_all
qed

lemma run_second_from_cache:
  assumes "gates st nm = Some g"
  shows "runSchedule env sched ([Returned r, Called nm config], st) =
           ([Returned r, if 1 \<in> set sched then Returned (Fulfilled g) else Called nm config], st)"
proof (induction sched)
  case Nil
  then show ?case by simp
next
  case (Cons i rest)
  consider "i = 0" | "i = 1" | "2 \<le> i" by linarith
  then show ?case
  proof cases
    case 1
    with Cons show ?thesis by simp
  next
    case 2
    with assms show ?thesis
      by (simp add: getGate_enter_def run_both_returned)
  next
    case 3
    with Cons show ?thesis by auto
  qed
qed

lemma run_first_from_cache:
  assumes "gates st nm = Some g"
  shows "runSchedule env sched ([Called nm config, Returned r], st) =
           ([if 0 \<in> set sched then Returned (Fulfilled g) else Called nm config, Returned r], st)"
proof (induction sched)
  case Nil
  then show ?case by simp
next
  case (Cons i rest)
  consider "i = 0" | "i = 1" | "2 \<le> i" by linarith
  then show ?case
  proof cases
    case 1
    with assms show ?thesis
      by (simp add: getGate_enter_def run_both_returned)
  next
    case 2
    with Cons show ?thesis by simp
  next
    case 3
    with Cons show ?thesis by auto
  qed
qed

lemma run_second_awaiting:
  assumes "connectResult env k1 u = Fulfilled ts1"
  shows "runSchedule env sched ([Returned r, AwaitingConnect nm k1 u], st) =
           (if 1 \<in> set sched
            then ([Returned r, Returned (Fulfilled \<lparr>upstream = k1, tools = ts1\<rparr>)],
                  st\<lparr>gates := (gates st)(nm \<mapsto> \<lparr>upstream = k1, tools = ts1\<rparr>)\<rparr>)
            else ([Returned r, AwaitingConnect nm k1 u], st))"
proof (induction sched)
  case Nil
  then show ?case by simp
next
  case (Cons i rest)
  consider "i = 0" | "i = 1" | "2 \<le> i" by linarith
  then show ?case
  proof cases
    case 1
    with Cons show ?thesis by simp
  next
    case 2
    with assms show ?thesis
      by (simp add: resume_fulfilled run_both_returned)
  next
    case 3
    with Cons show ?thesis by auto
  qed
qed

lemma run_first_awaiting:
  assumes "connectResult env k0 u = Fulfilled ts0"
  shows "runSchedule env sched ([AwaitingConnect nm k0 u, Returned r], st) =
           (if 0 \<in> set sched
            then ([Returned (Fulfilled \<lparr>upstream = k0, tools = ts0\<rparr>), Returned r],
                  st\<lparr>gates := (gates st)(nm \<mapsto> \<lparr>upstream = k0, tools = ts0\<rparr>)\<rparr>)
            else ([AwaitingConnect nm k0 u, Returned r], st))"
proof (induction sched)
  case Nil
  then show ?case by simp
next
  case (Cons i rest)
  consider "i = 0" | "i = 1" | "2 \<le> i" by linarith
  then show ?case
  proof cases
    case 1
    with assms show ?thesis
      by (simp add: resume_fulfilled run_both_returned)
  next
    case 2
    with Cons show ?thesis by simp
  next
    case 3
    with Cons show ?thesis by auto
  qed
qed

text \<open>
  Both calls suspended, both connections succeeding: whatever the schedule, as soon as it
  has run each call once more, both have returned their own gates, and the registry holds
  the gate of the call that was resumed last, which is call 1 exactly when the first entry
  of the schedule that names a call names call 0.
\<close>

lemma run_both_awaiting:
  assumes c0: "connectResult env k0 u = Fulfilled ts0"
    and c1: "connectResult env k1 u = Fulfilled ts1"
    and both: "0 \<in> set sched" "1 \<in> set sched"
  shows "runSchedule env sched ([AwaitingConnect nm k0 u, AwaitingConnect nm k1 u], st) =
           ([Returned (Fulfilled \<lparr>upstream = k0, tools = ts0\<rparr>),
             Returned (Fulfilled \<lparr>upstream = k1, tools = ts1\<rparr>)],
            st\<lparr>gates := (gates st)
                 (nm \<mapsto> (if hd (filter (\<lambda>i. i < 2) sched) = 0
                          then \<lparr>upstream = k1, tools = ts1\<rparr>
                          else \<lparr>upstream = k0, tools = ts0\<rparr>))\<rparr>)"
  using both
proof (induction sched)
  case Nil
  then show ?case by simp
next
  case (Cons i rest)
  consider "i = 0" | "i = 1" | "2 \<le> i" by linarith
  then show ?case
  proof cases
    case 1
    with Cons.prems have "1 \<in> set rest" by simp
    with 1 c0 c1 show ?thesis
      by (simp add: resume_fulfilled run_second_awaiting fun_upd_def cong: if_cong)
  next
    case 2
    with Cons.prems have "0 \<in> set rest" by simp
    with 2 c0 c1 show ?thesis
      by (simp add: resume_fulfilled run_first_awaiting fun_upd_def cong: if_cong)
  next
    case 3
    with Cons.prems have "0 \<in> set rest" "1 \<in> set rest" by auto
    with Cons.IH 3 show ?thesis by auto
  qed
qed

lemma run_enter_both:
  assumes "urlOf env config = Some u" and "gates st nm = None"
  shows "runSchedule env (0 # 1 # rest) ([Called nm config, Called nm config], st) =
           runSchedule env rest
             ([AwaitingConnect nm (clients st) u, AwaitingConnect nm (Suc (clients st)) u],
              st\<lparr>clients := Suc (Suc (clients st))\<rparr>)"
    and "runSchedule env (1 # 0 # rest) ([Called nm config, Called nm config], st) =
           runSchedule env rest
             ([AwaitingConnect nm (Suc (clients st)) u, AwaitingConnect nm (clients st) u],
              st\<lparr>clients := Suc (Suc (clients st))\<rparr>)"
  using assms by (simp_all add: getGate_enter_def)

lemma run_first_completes:
  assumes "urlOf env config = Some u" and "gates st nm = None"
    and "connectResult env (clients st) u = Fulfilled ts"
  shows "runSchedule env (0 # 0 # rest) ([Called nm config, Called nm config], st) =
           runSchedule env rest
             ([Returned (Fulfilled \<lparr>upstream = clients st, tools = ts\<rparr>), Called nm config],
              st\<lparr>clients := Suc (clients st),
                 gates := (gates st)(nm \<mapsto> \<lparr>upstream = clients st, tools = ts\<rparr>)\<rparr>)"
    and "runSchedule env (1 # 1 # rest) ([Called nm config, Called nm config], st) =
           runSchedule env rest
             ([Called nm config, Returned (Fulfilled \<lparr>upstream = clients st, tools = ts\<rparr>)],
              st\<lparr>clients := Suc (clients st),
                 gates := (gates st)(nm \<mapsto> \<lparr>upstream = clients st, tools = ts\<rparr>)\<rparr>)"
  using assms by (simp_all add: getGate_enter_def getGate_resume_def)

text \<open>
  Claim C6, as amended. The steps: a call that starts when the registry holds a gate for
  the name returns that gate and creates no client; a call that starts when it holds none
  (the URL being usable) creates a client of its own and suspends, whatever calls are
  suspended at that moment; a suspended call whose connection has succeeded stores its own
  gate under the name, over whatever is there, and returns it. A schedule entry that names
  no call changes nothing.

  Two first requests for a name the registry does not hold, from any state and whatever
  the rest of the schedule:
  \<^item> if the call that starts first is also resumed before the other starts (schedules
    0, 0, ... and 1, 1, ...) and its connection succeeds, one client is created, and the
    other call, once it runs, returns the same gate;
  \<^item> if both start before either is resumed (schedules 0, 1, ... and 1, 0, ...), two clients
    are created, whatever the connections do; when both connections succeed and the rest
    of the schedule runs each call again, the calls return different gates, each its own,
    and the registry keeps the gate of the call resumed last.
\<close>

theorem getGate_overlapping_calls:
  "(gates st nm = Some g \<longrightarrow> getGate_enter env st nm config = (Returned (Fulfilled g), st))
   \<and> (gates st nm = None \<and> urlOf env config = Some u \<longrightarrow>
        getGate_enter env st nm config =
          (AwaitingConnect nm (clients st) u, st\<lparr>clients := Suc (clients st)\<rparr>))
   \<and> (connectResult env k u = Fulfilled ts \<longrightarrow>
        getGate_resume env st nm k u =
          (Returned (Fulfilled \<lparr>upstream = k, tools = ts\<rparr>),
           st\<lparr>gates := (gates st)(nm \<mapsto> \<lparr>upstream = k, tools = ts\<rparr>)\<rparr>))
   \<and> (2 \<le> i \<longrightarrow>
        runSchedule env (i # rest) ([Called nm config, Called nm config], st) =
          runSchedule env rest ([Called nm config, Called nm config], st))
   \<and> (gates st nm = None \<and> urlOf env config = Some u
        \<and> connectResult env (clients st) u = Fulfilled ts \<longrightarrow>
        runSchedule env (0 # 0 # rest) ([Called nm config, Called nm config], st) =
          ([Returned (Fulfilled \<lparr>upstream = clients st, tools = ts\<rparr>),
            if 1 \<in> set rest then Returned (Fulfilled \<lparr>upstream = clients st, tools = ts\<rparr>)
            else Called nm config],
           st\<lparr>clients := Suc (clients st),
              gates := (gates st)(nm \<mapsto> \<lparr>upstream = clients st, tools = ts\<rparr>)\<rparr>)
        \<and> runSchedule env (1 # 1 # rest) ([Called nm config, Called nm config], st) =
          ([if 0 \<in> set rest then Returned (Fulfilled \<lparr>upstream = clients st, tools = ts\<rparr>)
            else Called nm config,
            Returned (Fulfilled \<lparr>upstream = clients st, tools = ts\<rparr>)],
           st\<lparr>clients := Suc (clients st),
              gates := (gates st)(nm \<mapsto> \<lparr>upstream = clients st, tools = ts\<rparr>)\<rparr>))
   \<and> (gates st nm = None \<and> urlOf env config = Some u \<longrightarrow>
        clients (snd (runSchedule env (0 # 1 # rest) ([Called nm config, Called nm config], st)))
          = clients st + 2
        \<and> clients (snd (runSchedule env (1 # 0 # rest) ([Called nm config, Called nm config], st)))
          = clients st + 2)
   \<and> (gates st nm = None \<and> urlOf env config = Some u
        \<and> connectResult env (clients st) u = Fulfilled ts
        \<and> connectResult env (Suc (clients st)) u = Fulfilled ts'
        \<and> 0 \<in> set rest \<and> 1 \<in> set rest \<longrightarrow>
        runSchedule env (0 # 1 # rest) ([Called nm config, Called nm config], st) =
          ([Returned (Fulfilled \<lparr>upstream = clients st, tools = ts\<rparr>),
            Returned (Fulfilled \<lparr>upstream = Suc (clients st), tools = ts'\<rparr>)],
           st\<lparr>clients := clients st + 2,
              gates := (gates st)
                (nm \<mapsto> (if hd (filter (\<lambda>i. i < 2) rest) = 0
                         then \<lparr>upstream = Suc (clients st), tools = ts'\<rparr>
                         else \<lparr>upstream = clients st, tools = ts\<rparr>))\<rparr>)
        \<and> runSchedule env (1 # 0 # rest) ([Called nm config, Called nm config], st) =
          ([Returned (Fulfilled \<lparr>upstream = Suc (clients st), tools = ts'\<rparr>),
            Returned (Fulfilled \<lparr>upstream = clients st, tools = ts\<rparr>)],
           st\<lparr>clients := clients st + 2,
              gates := (gates st)
                (nm \<mapsto> (if hd (filter (\<lambda>i. i < 2) rest) = 0
                         then \<lparr>upstream = clients st, tools = ts\<rparr>
                         else \<lparr>upstream = Suc (clients st), tools = ts'\<rparr>))\<rparr>)
        \<and> Returned (Fulfilled \<lparr>upstream = clients st, tools = ts\<rparr>)
            \<noteq> Returned (Fulfilled \<lparr>upstream = Suc (clients st), tools = ts'\<rparr>))"
proof (intro conjI impI)
  assume "gates st nm = Some g"
  then show "getGate_enter env st nm config = (Returned (Fulfilled g), st)"
    by (simp add: getGate_enter_def)
next
  assume "gates st nm = None \<and> urlOf env config = Some u"
  then show "getGate_enter env st nm config =
        (AwaitingConnect nm (clients st) u, st\<lparr>clients := Suc (clients st)\<rparr>)"
    by (simp add: enter_empty)
next
  assume "connectResult env k u = Fulfilled ts"
  then show "getGate_resume env st nm k u =
          (Returned (Fulfilled \<lparr>upstream = k, tools = ts\<rparr>),
           st\<lparr>gates := (gates st)(nm \<mapsto> \<lparr>upstream = k, tools = ts\<rparr>)\<rparr>)"
    by (rule resume_fulfilled)
next
  assume "2 \<le> i"
  then show "runSchedule env (i # rest) ([Called nm config, Called nm config], st) =
          runSchedule env rest ([Called nm config, Called nm config], st)"
    by simp
next
  assume h: "gates st nm = None \<and> urlOf env config = Some u
        \<and> connectResult env (clients st) u = Fulfilled ts"
  then have g: "gates (st\<lparr>clients := Suc (clients st),
                 gates := (gates st)(nm \<mapsto> \<lparr>upstream = clients st, tools = ts\<rparr>)\<rparr>) nm
               = Some \<lparr>upstream = clients st, tools = ts\<rparr>"
    by simp
  from h run_first_completes(1) [of env config u st nm ts rest] run_second_from_cache [OF g]
  show "runSchedule env (0 # 0 # rest) ([Called nm config, Called nm config], st) =
          ([Returned (Fulfilled \<lparr>upstream = clients st, tools = ts\<rparr>),
            if 1 \<in> set rest then Returned (Fulfilled \<lparr>upstream = clients st, tools = ts\<rparr>)
            else Called nm config],
           st\<lparr>clients := Suc (clients st),
              gates := (gates st)(nm \<mapsto> \<lparr>upstream = clients st, tools = ts\<rparr>)\<rparr>)"
    by simp
  from h run_first_completes(2) [of env config u st nm ts rest] run_first_from_cache [OF g]
  show "runSchedule env (1 # 1 # rest) ([Called nm config, Called nm config], st) =
          ([if 0 \<in> set rest then Returned (Fulfilled \<lparr>upstream = clients st, tools = ts\<rparr>)
            else Called nm config,
            Returned (Fulfilled \<lparr>upstream = clients st, tools = ts\<rparr>)],
           st\<lparr>clients := Suc (clients st),
              gates := (gates st)(nm \<mapsto> \<lparr>upstream = clients st, tools = ts\<rparr>)\<rparr>)"
    by simp
next
  assume h: "gates st nm = None \<and> urlOf env config = Some u"
  have e: "list_all entered [AwaitingConnect nm (clients st) u, AwaitingConnect nm (Suc (clients st)) u]"
      "list_all entered [AwaitingConnect nm (Suc (clients st)) u, AwaitingConnect nm (clients st) u]"
    by (simp_all add: entered_def)
  from h run_enter_both(1) [of env config u st nm rest] runSchedule_entered_clients [OF e(1)]
  show "clients (snd (runSchedule env (0 # 1 # rest) ([Called nm config, Called nm config], st)))
          = clients st + 2"
    by simp
  from h run_enter_both(2) [of env config u st nm rest] runSchedule_entered_clients [OF e(2)]
  show "clients (snd (runSchedule env (1 # 0 # rest) ([Called nm config, Called nm config], st)))
          = clients st + 2"
    by simp
next
  assume h: "gates st nm = None \<and> urlOf env config = Some u
        \<and> connectResult env (clients st) u = Fulfilled ts
        \<and> connectResult env (Suc (clients st)) u = Fulfilled ts'
        \<and> 0 \<in> set rest \<and> 1 \<in> set rest"
  then have c0: "connectResult env (clients st) u = Fulfilled ts"
    and c1: "connectResult env (Suc (clients st)) u = Fulfilled ts'"
    and r0: "0 \<in> set rest" and r1: "1 \<in> set rest" by simp_all
  from h run_enter_both(1) [of env config u st nm rest]
    run_both_awaiting [OF c0 c1 r0 r1, of nm "st\<lparr>clients := Suc (Suc (clients st))\<rparr>"]
  show "runSchedule env (0 # 1 # rest) ([Called nm config, Called nm config], st) =
          ([Returned (Fulfilled \<lparr>upstream = clients st, tools = ts\<rparr>),
            Returned (Fulfilled \<lparr>upstream = Suc (clients st), tools = ts'\<rparr>)],
           st\<lparr>clients := clients st + 2,
              gates := (gates st)
                (nm \<mapsto> (if hd (filter (\<lambda>i. i < 2) rest) = 0
                         then \<lparr>upstream = Suc (clients st), tools = ts'\<rparr>
                         else \<lparr>upstream = clients st, tools = ts\<rparr>))\<rparr>)"
    by simp
  from h run_enter_both(2) [of env config u st nm rest]
    run_both_awaiting [OF c1 c0 r0 r1, of nm "st\<lparr>clients := Suc (Suc (clients st))\<rparr>"]
  show "runSchedule env (1 # 0 # rest) ([Called nm config, Called nm config], st) =
          ([Returned (Fulfilled \<lparr>upstream = Suc (clients st), tools = ts'\<rparr>),
            Returned (Fulfilled \<lparr>upstream = clients st, tools = ts\<rparr>)],
           st\<lparr>clients := clients st + 2,
              gates := (gates st)
                (nm \<mapsto> (if hd (filter (\<lambda>i. i < 2) rest) = 0
                         then \<lparr>upstream = clients st, tools = ts\<rparr>
                         else \<lparr>upstream = Suc (clients st), tools = ts'\<rparr>))\<rparr>)"
    by simp
  show "Returned (Fulfilled \<lparr>upstream = clients st, tools = ts\<rparr>)
            \<noteq> Returned (Fulfilled \<lparr>upstream = Suc (clients st), tools = ts'\<rparr>)"
    by simp
qed

lemma exampleEnv_url: "urlOf exampleEnv exampleConfig = Some ''http://up/db''"
  by (simp add: urlOf_def exampleEnv_def exampleConfig_def)

lemma exampleEnv_connect:
  "connectResult exampleEnv n u = Fulfilled [\<lparr>tool_name = ''execute_sql'', tool_description = None\<rparr>]"
  by (simp add: exampleEnv_def)

text \<open>
  On the state that already holds the gate \<^verbatim>\<open>db\<close> and has created one client: a call for
  \<^verbatim>\<open>db\<close> returns the cached gate; two calls for \<^verbatim>\<open>logs\<close> run with the schedule 0, 0, 1, 0
  create one client and return the same gate; with 0, 1, 1, 0 and with 1, 0, 1, 0 they
  create two clients and return different gates, and the registry keeps the gate of call 0,
  which is resumed last.
\<close>

theorem getGate_overlapping_calls_witness:
  "getGate_enter exampleEnv busyState ''db'' exampleConfig = (Returned (Fulfilled exampleGate), busyState)
   \<and> runSchedule exampleEnv [0, 0, 1, 0]
        ([Called ''logs'' exampleConfig, Called ''logs'' exampleConfig], busyState) =
       ([Returned (Fulfilled gate1), Returned (Fulfilled gate1)],
        busyState\<lparr>clients := 2, gates := (gates busyState)(''logs'' \<mapsto> gate1)\<rparr>)
   \<and> runSchedule exampleEnv [0, 1, 1, 0]
        ([Called ''logs'' exampleConfig, Called ''logs'' exampleConfig], busyState) =
       ([Returned (Fulfilled gate1), Returned (Fulfilled gate2)],
        busyState\<lparr>clients := 3, gates := (gates busyState)(''logs'' \<mapsto> gate1)\<rparr>)
   \<and> runSchedule exampleEnv [1, 0, 1, 0]
        ([Called ''logs'' exampleConfig, Called ''logs'' exampleConfig], busyState) =
       ([Returned (Fulfilled gate2), Returned (Fulfilled gate1)],
        busyState\<lparr>clients := 3, gates := (gates busyState)(''logs'' \<mapsto> gate2)\<rparr>)
   \<and> gate1 \<noteq> gate2"
proof -
  have hit: "gates busyState ''db'' = Some exampleGate"
    by (simp add: busyState_def)
  have miss: "gates busyState ''logs'' = None"
    by (simp add: busyState_def)
  have n: "clients busyState = 1"
    by (simp add: busyState_def)
  have c1: "connectResult exampleEnv (clients busyState) ''http://up/db'' =
      Fulfilled [\<lparr>tool_name = ''execute_sql'', tool_description = None\<rparr>]"
    by (rule exampleEnv_connect)
  have c2: "connectResult exampleEnv (Suc (clients busyState)) ''http://up/db'' =
      Fulfilled [\<lparr>tool_name = ''execute_sql'', tool_description = None\<rparr>]"
    by (rule exampleEnv_connect)
  have r: "(0::nat) \<in> set [1, 0]" "(1::nat) \<in> set [1, 0]" "hd (filter (\<lambda>i. i < 2) [1, 0 :: nat]) \<noteq> 0"
    by simp_all
  note t = getGate_overlapping_calls [where env = exampleEnv and config = exampleConfig
      and u = "''http://up/db''" and st = busyState and rest = "[1, 0]"
      and ts = "[\<lparr>tool_name = ''execute_sql'', tool_description = None\<rparr>]"
      and ts' = "[\<lparr>tool_name = ''execute_sql'', tool_description = None\<rparr>]"]
  from t [where nm = "''db''" and g = exampleGate] hit
  have w1: "getGate_enter exampleEnv busyState ''db'' exampleConfig =
      (Returned (Fulfilled exampleGate), busyState)"
    by blast
  from t [where nm = "''logs''"] miss exampleEnv_url c1 r
  have w2: "runSchedule exampleEnv (0 # 0 # [1, 0])
        ([Called ''logs'' exampleConfig, Called ''logs'' exampleConfig], busyState) =
       ([Returned (Fulfilled \<lparr>upstream = clients busyState,
                              tools = [\<lparr>tool_name = ''execute_sql'', tool_description = None\<rparr>]\<rparr>),
         Returned (Fulfilled \<lparr>upstream = clients busyState,
                              tools = [\<lparr>tool_name = ''execute_sql'', tool_description = None\<rparr>]\<rparr>)],
        busyState\<lparr>clients := Suc (clients busyState),
           gates := (gates busyState)(''logs'' \<mapsto> \<lparr>upstream = clients busyState,
                              tools = [\<lparr>tool_name = ''execute_sql'', tool_description = None\<rparr>]\<rparr>)\<rparr>)"
    by presburger
  from t [where nm = "''logs''"] miss exampleEnv_url c1 c2 r
  have w3: "runSchedule exampleEnv (0 # 1 # [1, 0])
        ([Called ''logs'' exampleConfig, Called ''logs'' exampleConfig], busyState) =
       ([Returned (Fulfilled \<lparr>upstream = clients busyState,
                              tools = [\<lparr>tool_name = ''execute_sql'', tool_description = None\<rparr>]\<rparr>),
         Returned (Fulfilled \<lparr>upstream = Suc (clients busyState),
                              tools = [\<lparr>tool_name = ''execute_sql'', tool_description = None\<rparr>]\<rparr>)],
        busyState\<lparr>clients := clients busyState + 2,
           gates := (gates busyState)(''logs'' \<mapsto> \<lparr>upstream = clients busyState,
                              tools = [\<lparr>tool_name = ''execute_sql'', tool_description = None\<rparr>]\<rparr>)\<rparr>)"
    and w4: "runSchedule exampleEnv (1 # 0 # [1, 0])
        ([Called ''logs'' exampleConfig, Called ''logs'' exampleConfig], busyState) =
       ([Returned (Fulfilled \<lparr>upstream = Suc (clients busyState),
                              tools = [\<lparr>tool_name = ''execute_sql'', tool_description = None\<rparr>]\<rparr>),
         Returned (Fulfilled \<lparr>upstream = clients busyState,
                              tools = [\<lparr>tool_name = ''execute_sql'', tool_description = None\<rparr>]\<rparr>)],
        busyState\<lparr>clients := clients busyState + 2,
           gates := (gates busyState)(''logs'' \<mapsto> \<lparr>upstream = Suc (clients busyState),
                              tools = [\<lparr>tool_name = ''execute_sql'', tool_description = None\<rparr>]\<rparr>)\<rparr>)"
    by presburger+
  have three: "(1::nat) + 2 = 3" by simp
  have d: "gate1 \<noteq> gate2"
    by (simp add: gate1_def gate2_def)
  from w2 have w2': "runSchedule exampleEnv [0, 0, 1, 0]
        ([Called ''logs'' exampleConfig, Called ''logs'' exampleConfig], busyState) =
       ([Returned (Fulfilled gate1), Returned (Fulfilled gate1)],
        busyState\<lparr>clients := 2, gates := (gates busyState)(''logs'' \<mapsto> gate1)\<rparr>)"
    unfolding n Suc_1 three gate1_def gate2_def .
  from w3 have w3': "runSchedule exampleEnv [0, 1, 1, 0]
        ([Called ''logs'' exampleConfig, Called ''logs'' exampleConfig], busyState) =
       ([Returned (Fulfilled gate1), Returned (Fulfilled gate2)],
        busyState\<lparr>clients := 3, gates := (gates busyState)(''logs'' \<mapsto> gate1)\<rparr>)"
    unfolding n Suc_1 three gate1_def gate2_def .
  from w4 have w4': "runSchedule exampleEnv [1, 0, 1, 0]
        ([Called ''logs'' exampleConfig, Called ''logs'' exampleConfig], busyState) =
       ([Returned (Fulfilled gate2), Returned (Fulfilled gate1)],
        busyState\<lparr>clients := 3, gates := (gates busyState)(''logs'' \<mapsto> gate2)\<rparr>)"
    unfolding n Suc_1 three gate1_def gate2_def .
  from w1 w2' w3' w4' d show ?thesis by blast
qed

text \<open>
  Claim C6 as stated fails. Two first requests for \<^verbatim>\<open>db\<close> on the empty registry, run with
  the schedule 0, 1, 0, 1 against an upstream that accepts every connection: both calls
  return, two clients have been created, and the two calls return different gates. So the
  single-flight property does not hold of this environment.
\<close>

theorem single_flight_counterexample:
  "allReturned (fst (runSchedule exampleEnv [0, 1, 0, 1]
       ([Called ''db'' exampleConfig, Called ''db'' exampleConfig], emptyState)))
   \<and> clients (snd (runSchedule exampleEnv [0, 1, 0, 1]
       ([Called ''db'' exampleConfig, Called ''db'' exampleConfig], emptyState))) = 2
   \<and> fst (runSchedule exampleEnv [0, 1, 0, 1]
       ([Called ''db'' exampleConfig, Called ''db'' exampleConfig], emptyState)) ! 0
     \<noteq> fst (runSchedule exampleEnv [0, 1, 0, 1]
       ([Called ''db'' exampleConfig, Called ''db'' exampleConfig], emptyState)) ! 1
   \<and> \<not> singleFlight exampleEnv ''db'' exampleConfig"
proof -
  have run: "runSchedule exampleEnv [0, 1, 0, 1]
          ([Called ''db'' exampleConfig, Called ''db'' exampleConfig], emptyState) =
        ([Returned (Fulfilled \<lparr>upstream = 0, tools = [\<lparr>tool_name = ''execute_sql'', tool_description = None\<rparr>]\<rparr>),
          Returned (Fulfilled \<lparr>upstream = 1, tools = [\<lparr>tool_name = ''execute_sql'', tool_description = None\<rparr>]\<rparr>)],
         emptyState\<lparr>gates := [''db'' \<mapsto> \<lparr>upstream = 1, tools = [\<lparr>tool_name = ''execute_sql'', tool_description = None\<rparr>]\<rparr>],
                    clients := 2\<rparr>)"
    by (simp add: getGate_enter_def getGate_resume_def emptyState_def exampleEnv_url
        exampleEnv_connect)
  have fin: "allReturned
        [Returned (Fulfilled \<lparr>upstream = 0, tools = [\<lparr>tool_name = ''execute_sql'', tool_description = None\<rparr>]\<rparr>),
         Returned (Fulfilled \<lparr>upstream = 1, tools = [\<lparr>tool_name = ''execute_sql'', tool_description = None\<rparr>]\<rparr>)]"
    by (simp add: allReturned_def)
  have not_sf: "\<not> singleFlight exampleEnv ''db'' exampleConfig"
  proof
    assume sf: "singleFlight exampleEnv ''db'' exampleConfig"
    from sf run fin
    have "clients (emptyState\<lparr>gates := [''db'' \<mapsto> \<lparr>upstream = 1, tools = [\<lparr>tool_name = ''execute_sql'', tool_description = None\<rparr>]\<rparr>],
                    clients := 2\<rparr>) = 1"
      unfolding singleFlight_def by blast
    then show False by simp
  qed
  from fin not_sf show ?thesis
    unfolding run by simp
qed

text \<open>The calls of a list have all returned: examples.\<close>

lemma allReturned_examples:
  "allReturned [Returned r, Returned r']"
  "\<not> allReturned [Returned r, AwaitingConnect nm k u]"
  "\<not> allReturned [Called nm config, Returned r]"
  by (simp_all add: allReturned_def)

section \<open>Properties of the session router\<close>

lemma gateNameOf_examples:
  "gateNameOf ''/constructor'' = ''constructor''" "gateNameOf ''/toString'' = ''toString''"
  "gateNameOf ''/nope'' = ''nope''" "gateNameOf ''/db'' = ''db''"
  by (simp_all add: gateNameOf_def stripLeadingSlash_def stripTrailingSlash_def)

lemma serversGet_examples:
  "serversGet (servers exampleGuard) ''constructor'' = Some inheritedMember"
  "serversGet (servers exampleGuard) ''toString'' = Some inheritedMember"
  "serversGet (servers exampleGuard) ''nope'' = None"
  "serversGet (servers exampleGuard) ''db'' = Some exampleConfig"
  by (simp_all add: serversGet_def exampleGuard_def objectPrototypeKeys_def)


lemma serversGet_unknown:
  assumes "k \<notin> fst ` set srv" and "k \<notin> set objectPrototypeKeys"
  shows "serversGet srv k = None"
proof -
  from assms(1) have "map_of srv k = None"
    by (simp add: map_of_eq_None_iff)
  with assms(2) show ?thesis
    by (simp add: serversGet_def)
qed

text \<open>
  Claim C7, evaluated. With \<^verbatim>\<open>db\<close> the only configured gate and one session \<^verbatim>\<open>s1\<close>: the path
  \<^verbatim>\<open>/constructor\<close> names no configured gate, yet a \<^verbatim>\<open>GET\<close> is answered 400 and a \<^verbatim>\<open>POST\<close>
  502, and a \<^verbatim>\<open>DELETE\<close> of \<^verbatim>\<open>/toString\<close> carrying \<^verbatim>\<open>s1\<close> removes that session. The path
  \<^verbatim>\<open>/nope\<close> is answered 404 with the list of gates, the state unchanged.
\<close>

theorem unknown_gate_with_inherited_name:
  "''constructor'' \<notin> fst ` set (servers exampleGuard)
   \<and> handleRequest exampleEnv exampleGuard busyState
        \<lparr>req_method = ''GET'', pathname = ''/constructor'', sessionId = None\<rparr> =
      (Fulfilled (Json 400 postRequiredPayload), busyState)
   \<and> handleRequest exampleEnv exampleGuard busyState
        \<lparr>req_method = ''POST'', pathname = ''/constructor'', sessionId = None\<rparr> =
      (Fulfilled (Json 502 (connectFailedPayload (ErrorInstance ''Invalid URL''))), busyState)
   \<and> handleRequest exampleEnv exampleGuard busyState
        \<lparr>req_method = ''DELETE'', pathname = ''/toString'', sessionId = Some ''s1''\<rparr> =
      (Fulfilled ByTransport, busyState\<lparr>sessions := Map.empty\<rparr>)
   \<and> handleRequest exampleEnv exampleGuard busyState
        \<lparr>req_method = ''GET'', pathname = ''/nope'', sessionId = None\<rparr> =
      (Fulfilled (Json 404 (unknownGatePayload exampleGuard ''nope'')), busyState)"
proof (intro conjI)
  show "''constructor'' \<notin> fst ` set (servers exampleGuard)"
    by (simp add: exampleGuard_def)
  show "handleRequest exampleEnv exampleGuard busyState
        \<lparr>req_method = ''GET'', pathname = ''/constructor'', sessionId = None\<rparr> =
      (Fulfilled (Json 400 postRequiredPayload), busyState)"
    by (simp add: handleRequest_def gateNameOf_examples serversGet_examples)
  show "handleRequest exampleEnv exampleGuard busyState
        \<lparr>req_method = ''POST'', pathname = ''/constructor'', sessionId = None\<rparr> =
      (Fulfilled (Json 502 (connectFailedPayload (ErrorInstance ''Invalid URL''))), busyState)"
    by (simp add: handleRequest_def gateNameOf_examples serversGet_examples openSession_def
        getGate_def connectUpstream_def urlOf_def inheritedMember_def busyState_def)
  have t: "transportResult exampleEnv = Fulfilled ()"
    by (simp add: exampleEnv_def)
  show "handleRequest exampleEnv exampleGuard busyState
        \<lparr>req_method = ''DELETE'', pathname = ''/toString'', sessionId = Some ''s1''\<rparr> =
      (Fulfilled ByTransport, busyState\<lparr>sessions := Map.empty\<rparr>)"
    by (simp add: handleRequest_def gateNameOf_examples serversGet_examples continueSession_def
        busyState_def t)
  show "handleRequest exampleEnv exampleGuard busyState
        \<lparr>req_method = ''GET'', pathname = ''/nope'', sessionId = None\<rparr> =
      (Fulfilled (Json 404 (unknownGatePayload exampleGuard ''nope'')), busyState)"
    by (simp add: handleRequest_def gateNameOf_examples serversGet_examples)
qed

text \<open>
  For a name that is neither configured nor a member of \<^verbatim>\<open>Object.prototype\<close> the router
  answers 404 with the configured names and changes nothing.
\<close>

lemma unknown_gate_not_inherited:
  assumes "gateNameOf (pathname req) \<noteq> []"
    and "gateNameOf (pathname req) \<notin> fst ` set (servers config)"
    and "gateNameOf (pathname req) \<notin> set objectPrototypeKeys"
  shows "handleRequest env config st req =
           (Fulfilled (Json 404 (unknownGatePayload config (gateNameOf (pathname req)))), st)"
  using assms by (simp add: handleRequest_def serversGet_unknown)



text \<open>
  The router on examples, with the payloads written out: the status at the root path, an
  unknown gate, an unknown session, a first request that is not a \<^verbatim>\<open>POST\<close>, an inherited
  name, an existing session (with a trailing slash in the path), a body that does not
  parse, the end of a session, a new session whose upstream connects, and one whose
  upstream refuses.
\<close>

lemma gateNameOf_more_examples:
  "gateNameOf ''/'' = []" "gateNameOf [] = []" "gateNameOf ''/db/'' = ''db''"
  "gateNameOf ''db'' = ''db''" "gateNameOf ''//db//'' = ''/db/''"
  by (simp_all add: gateNameOf_def stripLeadingSlash_def stripTrailingSlash_def)

lemma handleRequest_examples:
  "handleRequest exampleEnv exampleGuard busyState
      \<lparr>req_method = ''GET'', pathname = ''/'', sessionId = None\<rparr> =
     (Fulfilled (Json 200 (JObj [(''status'', JStr ''ok''), (''gates'', JArr [JStr ''db''])])), busyState)"
  "handleRequest exampleEnv exampleGuard busyState
      \<lparr>req_method = ''GET'', pathname = ''/nope'', sessionId = None\<rparr> =
     (Fulfilled (Json 404 (JObj [(''error'', JStr (''Unknown gate: '' @ [CHR 0x22] @ ''nope'' @ [CHR 0x22])),
                                 (''available'', JArr [JStr ''db''])])), busyState)"
  "handleRequest exampleEnv exampleGuard busyState
      \<lparr>req_method = ''POST'', pathname = ''/db'', sessionId = Some ''s2''\<rparr> =
     (Fulfilled (Json 404 (JObj [(''jsonrpc'', JStr ''2.0''),
                                 (''error'', JObj [(''code'', JNum (- 32001)),
                                                  (''message'', JStr ''Session not found'')]),
                                 (''id'', JNull)])), busyState)"
  "handleRequest exampleEnv exampleGuard busyState
      \<lparr>req_method = ''GET'', pathname = ''/db'', sessionId = None\<rparr> =
     (Fulfilled (Json 400 (JObj [(''error'', JStr ''New sessions must start with POST'')])), busyState)"
  "handleRequest exampleEnv exampleGuard busyState
      \<lparr>req_method = ''POST'', pathname = ''/constructor'', sessionId = None\<rparr> =
     (Fulfilled (Json 502 (JObj [(''error'', JStr ''Failed to connect to upstream: Invalid URL'')])),
      busyState)"
  "handleRequest exampleEnv exampleGuard busyState
      \<lparr>req_method = ''POST'', pathname = ''/db/'', sessionId = Some ''s1''\<rparr> =
     (Fulfilled ByTransport, busyState)"
  "handleRequest badBodyEnv exampleGuard busyState
      \<lparr>req_method = ''POST'', pathname = ''/db'', sessionId = Some ''s1''\<rparr> =
     (Rejected (ErrorInstance ''Unexpected token''), busyState)"
  "handleRequest exampleEnv exampleGuard busyState
      \<lparr>req_method = ''DELETE'', pathname = ''/db'', sessionId = Some ''s1''\<rparr> =
     (Fulfilled ByTransport, busyState\<lparr>sessions := Map.empty\<rparr>)"
  "handleRequest initEnv exampleGuard emptyState
      \<lparr>req_method = ''POST'', pathname = ''/db'', sessionId = None\<rparr> =
     (Fulfilled ByTransport,
      \<lparr>sessions = [''s9'' \<mapsto> \<lparr>gateName = ''db'', server = (exampleGate, exampleConfig)\<rparr>],
       gates = [''db'' \<mapsto> exampleGate], clients = 1\<rparr>)"
  "handleRequest refusingEnv exampleGuard emptyState
      \<lparr>req_method = ''POST'', pathname = ''/db'', sessionId = None\<rparr> =
     (Fulfilled (Json 502 (JObj [(''error'', JStr ''Failed to connect to upstream: fetch failed'')])),
      emptyState\<lparr>clients := 1\<rparr>)"
  by (simp_all add: Let_def handleRequest_def gateNameOf_def stripLeadingSlash_def stripTrailingSlash_def
      serversGet_def exampleGuard_def objectPrototypeKeys_def statusPayload_def gateNames_def
      unknownGatePayload_def sessionNotFoundPayload_def postRequiredPayload_def
      connectFailedPayload_def errorMessage_def continueSession_def openSession_def getGate_def
      connectUpstream_def urlOf_def inheritedMember_def busyState_def emptyState_def
      exampleEnv_def badBodyEnv_def initEnv_def refusingEnv_def exampleConfig_def exampleGate_def)

section \<open>Properties of the status check\<close>

text \<open>
  Claim C9. When the lock record holds a process id and either the existence test on it
  fails, or it succeeds but the status endpoint does not answer with success, the status
  check returns no process id (the proxy is off), the lock record is deleted, and no
  \<^verbatim>\<open>SIGTERM\<close> is among the effects.
\<close>

theorem stale_lock_removed_without_termination_signal:
  assumes "parseInt (trim text) = Some pid"
    and "\<not> killReturns host pid SignalZero \<or> statusFetch host prt \<noteq> Response True"
  shows "fst (getRunningPid host prt (Some text)) = None
         \<and> fst (snd (getRunningPid host prt (Some text))) = None
         \<and> Unlink \<in> set (snd (snd (getRunningPid host prt (Some text))))
         \<and> (\<forall>p. Kill p SIGTERM \<notin> set (snd (snd (getRunningPid host prt (Some text)))))"
proof (cases "killReturns host pid SignalZero")
  case False
  with assms(1) show ?thesis
    by (simp add: getRunningPid_def isProcessRunning_def)
next
  case True
  with assms(2) have "statusFetch host prt \<noteq> Response True" by simp
  with True assms(1) show ?thesis
    by (cases "statusFetch host prt") (auto simp: getRunningPid_def isProcessRunning_def)
qed

text \<open>
  The record \<^verbatim>\<open>4321\<close> on a host where no process is alive, and on one where the process is
  alive but the endpoint does not answer.
\<close>

theorem stale_lock_removed_without_termination_signal_witness:
  "getRunningPid deadHost 6427 (Some ''4321'') = (None, None, [Kill 4321 SignalZero, Unlink])
   \<and> getRunningPid silentHost 6427 (Some ''4321'') =
        (None, None, [Kill 4321 SignalZero, Fetch 6427, Unlink])"
proof -
  have p: "parseInt (trim ''4321'') = Some 4321"
    by (simp add: parseInt_def trim_def isWhiteSpace_def isDigit_def digitsToNat_def)
  have d: "\<not> killReturns deadHost 4321 SignalZero \<or> statusFetch deadHost 6427 \<noteq> Response True"
    by (simp add: deadHost_def)
  have s: "\<not> killReturns silentHost 4321 SignalZero \<or> statusFetch silentHost 6427 \<noteq> Response True"
    by (simp add: silentHost_def)
  have e1: "snd (snd (getRunningPid deadHost 6427 (Some ''4321''))) = [Kill 4321 SignalZero, Unlink]"
    by (simp add: getRunningPid_def p isProcessRunning_def deadHost_def)
  have e2: "snd (snd (getRunningPid silentHost 6427 (Some ''4321''))) =
      [Kill 4321 SignalZero, Fetch 6427, Unlink]"
    by (simp add: getRunningPid_def p isProcessRunning_def silentHost_def)
  from stale_lock_removed_without_termination_signal [OF p d] e1
  have r1: "getRunningPid deadHost 6427 (Some ''4321'') = (None, None, [Kill 4321 SignalZero, Unlink])"
    by (cases "getRunningPid deadHost 6427 (Some ''4321'')") auto
  from stale_lock_removed_without_termination_signal [OF p s] e2
  have r2: "getRunningPid silentHost 6427 (Some ''4321'') =
        (None, None, [Kill 4321 SignalZero, Fetch 6427, Unlink])"
    by (cases "getRunningPid silentHost 6427 (Some ''4321'')") auto
  from r1 r2 show ?thesis by (rule conjI)
qed

text \<open>
  \<open>parseInt\<close> after \<open>trim\<close>, the status check and \<open>turnOff\<close> on examples: white space
  around the number, no digits, a sign, trailing text, leading zeros; no lock record, a
  live and answering proxy, a record that is not a number, an answer that is not a success;
  a termination signal that is delivered, and one that is not.
\<close>

lemma parseInt_examples:
  "parseInt (trim ([CHR 0x20] @ ''4321'' @ [CHR 0x0A])) = Some 4321"
  "parseInt (trim ''abc'') = None"
  "parseInt (trim []) = None"
  "parseInt (trim ''-12x'') = Some (- 12)"
  "parseInt (trim ''+7 8'') = Some 7"
  "parseInt (trim ''0900'') = Some 900"
  by (simp_all add: parseInt_def trim_def isWhiteSpace_def isDigit_def digitsToNat_def)

lemma getRunningPid_examples:
  "getRunningPid liveHost 6427 None = (None, None, [])"
  "getRunningPid liveHost 6427 (Some (''4321'' @ [CHR 0x0A])) =
     (Some 4321, Some (''4321'' @ [CHR 0x0A]), [Kill 4321 SignalZero, Fetch 6427])"
  "getRunningPid liveHost 6427 (Some ''abc'') = (None, None, [Unlink])"
  "getRunningPid (liveHost\<lparr>statusFetch := (\<lambda>p. Response False)\<rparr>) 6427 (Some ''4321'') =
     (None, None, [Kill 4321 SignalZero, Fetch 6427, Unlink])"
  "turnOff liveHost 4321 (Some ''4321'') = (True, None, [Kill 4321 SIGTERM, Unlink])"
  "turnOff deadHost 4321 (Some ''4321'') = (False, Some ''4321'', [Kill 4321 SIGTERM])"
  by (simp_all add: getRunningPid_def isProcessRunning_def turnOff_def liveHost_def deadHost_def
      parseInt_def trim_def isWhiteSpace_def isDigit_def digitsToNat_def)

end
